theory Spec2Isabelle
  imports Main "HOL-Library.AList"
begin

section \<open>JavaScript strings\<close>

text \<open>
  A JavaScript string is a sequence of UTF-16 code units. A code unit is modelled by its
  number; every statement below holds for all lists of numbers, so in particular for all
  strings. \<open>js\<close> turns an ASCII literal into such a string.
\<close>

type_synonym jchar = nat
type_synonym jstring = "jchar list"

definition js :: "string \<Rightarrow> jstring" where
  "js s = map of_char s"

text \<open>The line terminators of ECMAScript: LF, CR, LS and PS.\<close>

definition isLineTerminator :: "jchar \<Rightarrow> bool" where
  "isLineTerminator c = (c = 10 \<or> c = 13 \<or> c = 8232 \<or> c = 8233)"

text \<open>
  What \<^verbatim>\<open>\s\<close> matches and what \<^verbatim>\<open>trim\<close> strips: the white space
  characters (TAB, VT, FF, SP, NBSP, ZWNBSP and the space separators of Unicode) and the
  line terminators.
\<close>

definition isSpace :: "jchar \<Rightarrow> bool" where
  "isSpace c = (c = 9 \<or> c = 10 \<or> c = 11 \<or> c = 12 \<or> c = 13 \<or> c = 32 \<or> c = 160
     \<or> c = 5760 \<or> (8192 \<le> c \<and> c \<le> 8202) \<or> c = 8232 \<or> c = 8233 \<or> c = 8239
     \<or> c = 8287 \<or> c = 12288 \<or> c = 65279)"

definition trim :: "jstring \<Rightarrow> jstring" where
  "trim s = rev (dropWhile isSpace (rev (dropWhile isSpace s)))"

section \<open>Regular expressions\<close>

text \<open>
  The fragment of the regular expression syntax that the patterns of
  \<^verbatim>\<open>TaskParser.ts\<close> use. An atom matches one character; the quantifiers
  \<^verbatim>\<open>*\<close> and \<^verbatim>\<open>+\<close> occur in the patterns on atoms only.
\<close>

datatype atom =
    Chr jchar                     \<comment> \<open>a literal character\<close>
  | Space                         \<comment> \<open>\<^verbatim>\<open>\s\<close>\<close>
  | NonSpace                      \<comment> \<open>\<^verbatim>\<open>\S\<close>\<close>
  | AnyChar                       \<comment> \<open>\<^verbatim>\<open>.\<close> (no flag s)\<close>
  | NoneOf "jchar list"           \<comment> \<open>\<^verbatim>\<open>[^...]\<close> over literal characters\<close>
  | Ranges "(jchar \<times> jchar) list"  \<comment> \<open>\<^verbatim>\<open>[a-b...]\<close>\<close>
  | AnyOf "atom list"             \<comment> \<open>a class that mixes escapes and characters\<close>

fun inAtom :: "atom \<Rightarrow> jchar \<Rightarrow> bool" where
  "inAtom (Chr d) c = (c = d)"
| "inAtom Space c = isSpace c"
| "inAtom NonSpace c = (\<not> isSpace c)"
| "inAtom AnyChar c = (\<not> isLineTerminator c)"
| "inAtom (NoneOf ds) c = (c \<notin> set ds)"
| "inAtom (Ranges rs) c = list_ex (\<lambda>(lo, hi). lo \<le> c \<and> c \<le> hi) rs"
| "inAtom (AnyOf as) c = list_ex (\<lambda>a. inAtom a c) as"

datatype regex =
    Atom atom
  | Seq regex regex        \<comment> \<open>concatenation\<close>
  | Alt regex regex        \<comment> \<open>\<^verbatim>\<open>r|s\<close>\<close>
  | Opt regex              \<comment> \<open>\<^verbatim>\<open>r?\<close>, greedy\<close>
  | Star atom              \<comment> \<open>\<^verbatim>\<open>a*\<close>, greedy\<close>
  | Plus atom              \<comment> \<open>\<^verbatim>\<open>a+\<close>, greedy\<close>
  | Group string regex     \<comment> \<open>\<^verbatim>\<open>(?<name>r)\<close>\<close>
  | Bol                    \<comment> \<open>\<^verbatim>\<open>^\<close>\<close>
  | Eol                    \<comment> \<open>\<^verbatim>\<open>$\<close>\<close>
  | Eps                    \<comment> \<open>the empty pattern\<close>

text \<open>
  The state of the backtracking matcher: the input from the current position on, and the
  named groups captured so far. The whole input is a parameter of the matcher, for the
  assertion \<^verbatim>\<open>^\<close>, which looks at the character before the position.
\<close>

record mstate =
  rest :: jstring
  caps :: "string \<rightharpoonup> jstring"

text \<open>
  A greedy quantifier on an atom: take one more character while the atom matches, and give
  a character back only when the continuation fails behind it.
\<close>

fun many :: "atom \<Rightarrow> jstring \<Rightarrow> (jstring \<Rightarrow> 'r option) \<Rightarrow> 'r option" where
  "many a [] k = k []"
| "many a (c # cs) k =
     (if inAtom a c
      then (case many a cs k of Some x \<Rightarrow> Some x | None \<Rightarrow> k (c # cs))
      else k (c # cs))"

definition consumed :: "jstring \<Rightarrow> jstring \<Rightarrow> jstring" where
  "consumed before after = take (length before - length after) before"

definition atLineStart :: "bool \<Rightarrow> jstring \<Rightarrow> jstring \<Rightarrow> bool" where
  "atLineStart multiline input s =
     (let i = length input - length s
      in i = 0 \<or> (multiline \<and> isLineTerminator (input ! (i - 1))))"

definition atLineEnd :: "bool \<Rightarrow> jstring \<Rightarrow> bool" where
  "atLineEnd multiline s =
     (case s of [] \<Rightarrow> True | c # _ \<Rightarrow> multiline \<and> isLineTerminator c)"

text \<open>
  The matcher, in continuation-passing style: \<open>rmatch ml input r k s\<close> matches \<open>r\<close> at
  the state \<open>s\<close> and hands the state behind the match to \<open>k\<close>; where \<open>k\<close> fails it
  tries the next alternative, in the order of ECMAScript (left alternative first, longest
  repetition first, an optional part present first).
\<close>

fun rmatch :: "bool \<Rightarrow> jstring \<Rightarrow> regex \<Rightarrow> (mstate \<Rightarrow> 'r option) \<Rightarrow> mstate \<Rightarrow> 'r option" where
  "rmatch ml inp (Atom a) k s =
     (case rest s of
        [] \<Rightarrow> None
      | c # cs \<Rightarrow> if inAtom a c then k (s\<lparr>rest := cs\<rparr>) else None)"
| "rmatch ml inp (Seq r1 r2) k s = rmatch ml inp r1 (rmatch ml inp r2 k) s"
| "rmatch ml inp (Alt r1 r2) k s =
     (case rmatch ml inp r1 k s of Some x \<Rightarrow> Some x | None \<Rightarrow> rmatch ml inp r2 k s)"
| "rmatch ml inp (Opt r) k s =
     (case rmatch ml inp r k s of Some x \<Rightarrow> Some x | None \<Rightarrow> k s)"
| "rmatch ml inp (Star a) k s = many a (rest s) (\<lambda>cs. k (s\<lparr>rest := cs\<rparr>))"
| "rmatch ml inp (Plus a) k s =
     (case rest s of
        [] \<Rightarrow> None
      | c # cs \<Rightarrow> if inAtom a c then many a cs (\<lambda>cs'. k (s\<lparr>rest := cs'\<rparr>)) else None)"
| "rmatch ml inp (Group n r) k s =
     rmatch ml inp r (\<lambda>s'. k (s'\<lparr>caps := (caps s')(n \<mapsto> consumed (rest s) (rest s'))\<rparr>)) s"
| "rmatch ml inp Bol k s = (if atLineStart ml inp (rest s) then k s else None)"
| "rmatch ml inp Eol k s = (if atLineEnd ml (rest s) then k s else None)"
| "rmatch ml inp Eps k s = k s"

text \<open>
  One attempt at one start position \<open>s\<close> (a suffix of the input): the matched text and
  the groups, when the pattern matches there.
\<close>

definition attempt :: "bool \<Rightarrow> jstring \<Rightarrow> regex \<Rightarrow> jstring \<Rightarrow> (jstring \<times> (string \<rightharpoonup> jstring)) option" where
  "attempt ml inp r s =
     map_option (\<lambda>e. (consumed s (rest e), caps e))
       (rmatch ml inp r Some \<lparr>rest = s, caps = Map.empty\<rparr>)"

text \<open>The search for the leftmost start position at which the pattern matches.\<close>

fun search :: "bool \<Rightarrow> jstring \<Rightarrow> regex \<Rightarrow> jstring \<Rightarrow> (jstring \<times> (string \<rightharpoonup> jstring)) option" where
  "search ml inp r [] = attempt ml inp r []"
| "search ml inp r (c # cs) =
     (case attempt ml inp r (c # cs) of
        Some m \<Rightarrow> Some m
      | None \<Rightarrow> search ml inp r cs)"

text \<open>
  A regular expression object with its flags, and what \<^verbatim>\<open>String.prototype.match\<close>
  returns for it, as far as the callers read it: \<^verbatim>\<open>null\<close> when the pattern matches
  nowhere; otherwise an array whose first element is the leftmost match. Without the flag
  \<^verbatim>\<open>g\<close> the array carries the property \<^verbatim>\<open>groups\<close>; with the flag
  \<^verbatim>\<open>g\<close> it is the plain array of all matched texts and \<^verbatim>\<open>groups\<close> is
  \<^verbatim>\<open>undefined\<close>.
\<close>

record RegExp =
  source :: regex
  global :: bool
  multiline :: bool

record RegExpMatchArray =
  matched :: jstring
  groups :: "(string \<rightharpoonup> jstring) option"

definition js_match :: "jstring \<Rightarrow> RegExp \<Rightarrow> RegExpMatchArray option" where
  "js_match str re =
     (case search (multiline re) str (source re) str of
        None \<Rightarrow> None
      | Some (m, g) \<Rightarrow> Some \<lparr>matched = m, groups = (if global re then None else Some g)\<rparr>)"

section \<open>TaskParser.ts\<close>

text \<open>Sequencing a list of parts, to write a pattern in the order of its source.\<close>

fun seqs :: "regex list \<Rightarrow> regex" where
  "seqs [r] = r"
| "seqs (r # rs) = Seq r (seqs rs)"
| "seqs [] = Eps"

abbreviation lit :: "char \<Rightarrow> regex" where
  "lit c \<equiv> Atom (Chr (of_char c))"

text \<open>
  \<^verbatim>\<open>static strictPattern = /(?:-|\*) \[(?<complete>\s|x)?\]\s+(?<taskLine>\S[^\^]*)\^?.*$/\<close>
\<close>

definition TaskParser_strictPattern :: RegExp where
  "TaskParser_strictPattern = \<lparr>
     source = seqs [
       Alt (lit CHR ''-'') (lit CHR ''*''), lit CHR '' '', lit CHR ''['',
       Opt (Group ''complete'' (Alt (Atom Space) (lit CHR ''x''))),
       lit CHR '']'', Plus Space,
       Group ''taskLine'' (Seq (Atom NonSpace) (Star (NoneOf [of_char CHR ''^'']))),
       Opt (lit CHR ''^''), Star AnyChar, Eol],
     global = False, multiline = False\<rparr>"

text \<open>
  \<^verbatim>\<open>static generalPattern = /(?:-|\*)\s*\[(?<complete>[\sxX]*)\]\s*(?<taskLine>\S.*)/\<close>
\<close>

definition TaskParser_generalPattern :: RegExp where
  "TaskParser_generalPattern = \<lparr>
     source = seqs [
       Alt (lit CHR ''-'') (lit CHR ''*''), Star Space, lit CHR ''['',
       Group ''complete'' (Star (AnyOf [Space, Chr (of_char CHR ''x''), Chr (of_char CHR ''X'')])),
       lit CHR '']'', Star Space,
       Group ''taskLine'' (Seq (Atom NonSpace) (Star AnyChar))],
     global = False, multiline = False\<rparr>"

text \<open>
  The task record, as far as \<^verbatim>\<open>parseLine\<close> writes it; the other fields of
  \<^verbatim>\<open>ITask\<close> (declared in \<^verbatim>\<open>./Task/types\<close>) are the extension of the
  record, and \<^verbatim>\<open>emptyTask\<close> (of \<^verbatim>\<open>./Task\<close>) is a parameter.
\<close>

record ITask =
  complete :: bool
  name :: jstring

datatype error = TypeError | Error string

text \<open>
  \<^verbatim>\<open>parseLine\<close>: \<open>Inr None\<close> is the result \<^verbatim>\<open>null\<close>. Reading a property
  of \<^verbatim>\<open>undefined\<close> (destructuring \<^verbatim>\<open>match.groups\<close>, calling
  \<^verbatim>\<open>taskLine.trim()\<close>) is the \<^verbatim>\<open>TypeError\<close>.
\<close>

definition parseLine :: "'a ITask_scheme \<Rightarrow> jstring \<Rightarrow> error + 'a ITask_scheme option" where
  "parseLine emptyTask line =
     (case js_match line TaskParser_strictPattern of
        None \<Rightarrow> Inr None
      | Some m \<Rightarrow>
          (case groups m of
             None \<Rightarrow> Inl TypeError
           | Some g \<Rightarrow>
               (case g ''taskLine'' of
                  None \<Rightarrow> Inl TypeError
                | Some taskLine \<Rightarrow>
                    Inr (Some (emptyTask\<lparr>complete := (g ''complete'' = Some (js ''x'')),
                                          name := trim taskLine\<rparr>)))))"

text \<open>
  The pattern of the module:
  \<^verbatim>\<open>const strictPattern = /^\s*(?:-|\*) \[(?<complete>\s|x)?\]\s+(?<taskLine>\S[^\^]*)(?: \^(?<id>[0-9A-Za-z]+))?$/gm\<close>
\<close>

definition strictPattern :: RegExp where
  "strictPattern = \<lparr>
     source = seqs [
       Bol, Star Space,
       Alt (lit CHR ''-'') (lit CHR ''*''), lit CHR '' '', lit CHR ''['',
       Opt (Group ''complete'' (Alt (Atom Space) (lit CHR ''x''))),
       lit CHR '']'', Plus Space,
       Group ''taskLine'' (Seq (Atom NonSpace) (Star (NoneOf [of_char CHR ''^'']))),
       Opt (seqs [lit CHR '' '', lit CHR ''^'',
         Group ''id'' (Plus (Ranges [(of_char CHR ''0'', of_char CHR ''9''),
           (of_char CHR ''A'', of_char CHR ''Z''), (of_char CHR ''a'', of_char CHR ''z'')]))]),
       Eol],
     global = True, multiline = True\<rparr>"

text \<open>
  \<^verbatim>\<open>contents.split(/(\r|\n)/g)\<close>: the separator has a capturing group, so every
  separator is itself an element of the result, between the pieces it separates.
\<close>

fun splitKeep :: "jstring \<Rightarrow> jstring \<Rightarrow> jstring list" where
  "splitKeep cur [] = [cur]"
| "splitKeep cur (c # cs) =
     (if c = 13 \<or> c = 10 then cur # [c] # splitKeep [] cs else splitKeep (cur @ [c]) cs)"

definition split_CR_or_LF :: "jstring \<Rightarrow> jstring list" where
  "split_CR_or_LF contents = splitKeep [] contents"

text \<open>
  The host's cache of a document, as far as \<^verbatim>\<open>parseFileContents\<close> reads it: of a
  list item its \<^verbatim>\<open>task\<close> (the status character, absent on an item that is no
  task), \<^verbatim>\<open>position.start.line\<close> and \<^verbatim>\<open>parent\<close>.
\<close>

record ListItemCache =
  task :: "jstring option"
  start_line :: nat
  parent :: int

record CachedMetadata =
  listItems :: "ListItemCache list"

text \<open>
  \<^verbatim>\<open>AnonymousDisplayTask\<close>; \<open>'n\<close> is the type of numbers, and
  \<^verbatim>\<open>Number.parseInt\<close> a parameter of \<^verbatim>\<open>parseFileContents\<close>.
\<close>

datatype 'n AnonymousDisplayTask =
  AnonymousDisplayTask
    (adt_complete: bool)
    (adt_name: jstring)
    (adt_location: "jstring \<times> nat")
    (adt_id: "'n option")
    (adt_parent: "'n AnonymousDisplayTask option")

definition truthy :: "jstring option \<Rightarrow> bool" where
  "truthy v = (case v of None \<Rightarrow> False | Some s \<Rightarrow> s \<noteq> [])"

text \<open>The loop of \<^verbatim>\<open>parseFileContents\<close> over \<^verbatim>\<open>cacheTasks\<close>.\<close>

fun parseFileContents_loop ::
  "(jstring \<Rightarrow> 'n) \<Rightarrow> jstring \<Rightarrow> jstring list \<Rightarrow> ListItemCache list \<Rightarrow>
   (nat \<rightharpoonup> 'n AnonymousDisplayTask) \<Rightarrow> error + (nat \<rightharpoonup> 'n AnonymousDisplayTask)" where
  "parseFileContents_loop parseInt filePath lines [] ret = Inr ret"
| "parseFileContents_loop parseInt filePath lines (cacheListItem # cacheTasks) ret =
     (let lineNum = start_line cacheListItem in
      if lineNum \<ge> length lines
      then Inl (Error ''Cache line number cannot be longer than file lines.'')
      else
        (case js_match (lines ! lineNum) strictPattern of
           None \<Rightarrow> parseFileContents_loop parseInt filePath lines cacheTasks ret
         | Some m \<Rightarrow>
             (case groups m of
                None \<Rightarrow> Inl TypeError
              | Some g \<Rightarrow>
                  (case g ''taskLine'' of
                     None \<Rightarrow> Inl TypeError
                   | Some taskLine \<Rightarrow>
                       parseFileContents_loop parseInt filePath lines cacheTasks
                         (ret(lineNum \<mapsto>
                            AnonymousDisplayTask
                              (g ''complete'' = Some (js ''x''))
                              (trim taskLine)
                              (filePath, lineNum)
                              (if truthy (g ''id'') then map_option parseInt (g ''id'') else None)
                              (if parent cacheListItem > -1
                               then ret (nat (parent cacheListItem)) else None)))))))"

definition parseFileContents ::
  "(jstring \<Rightarrow> 'n) \<Rightarrow> jstring \<Rightarrow> jstring \<Rightarrow> CachedMetadata \<Rightarrow>
   error + (nat \<rightharpoonup> 'n AnonymousDisplayTask)" where
  "parseFileContents parseInt filePath contents fileCache =
     parseFileContents_loop parseInt filePath (split_CR_or_LF contents)
       (filter (\<lambda>li. truthy (task li)) (listItems fileCache)) Map.empty"

section \<open>main.ts\<close>

text \<open>
  The plugin, as far as its event handlers read and write it. What the handlers get from
  modules that are not among the sources is a parameter: the fingerprint
  \<^verbatim>\<open>hashFileTaskState\<close>, the keys \<^verbatim>\<open>instanceIndexKey\<close> and
  \<^verbatim>\<open>taskLocationStr\<close>, \<^verbatim>\<open>filterIndexByPath\<close>, the test
  \<^verbatim>\<open>testAndSetFileStatus\<close> of the file manager, and what reading a document
  gives (\<^verbatim>\<open>getInstanceIndexFromFile\<close>, \<^verbatim>\<open>readMarkdownFile\<close>).
  A handler runs as one step: the points at which it awaits a read are not modelled.
\<close>

datatype CacheStatus = CLEAN | DIRTY

record FileState =
  status :: CacheStatus
  hash :: jstring

text \<open>A file or folder of the vault: the identity of the object, and its path.\<close>

datatype TAbstractFile =
    TFile (ident: nat) (path: jstring)
  | TFolder (ident: nat) (path: jstring)

record TaskInstance =
  filePath :: jstring
  uid :: nat

text \<open>
  An index is an object with string keys: a list of keys and values in the order of
  insertion, each key once.
\<close>

type_synonym 'a TaskInstanceIndex = "(jstring \<times> 'a TaskInstance_scheme) list"

datatype 'd IndexUpdateAction =
    MODIFY_FILE_TASKS 'd
  | DELETE_FILE jstring
  | RENAME_FILE (oldPath: jstring) (newPath: jstring)

datatype ('a, 't) FileWrite =
    WriteIndexFile TAbstractFile "'a TaskInstanceIndex" 't
  | WriteStateToFile TAbstractFile "'a TaskInstanceIndex"

text \<open>
  The active Markdown view of the workspace, when there is one: the path of its file and
  the line of the cursor of its editor.
\<close>

record MarkdownView =
  view_path :: jstring
  cursor_line :: nat

text \<open>
  The state: the fields of the plugin (\<open>activeFile\<close>, the settings, the keys of
  \<open>changeDebouncers\<close>), the table of the file manager (\<open>fileStates\<close>), the state of the
  store (\<open>instanceIndex\<close>, \<open>taskIndex\<close>), and three logs of what the handlers ask of
  their collaborators: the calls of the debounced functions (\<open>debounced\<close>; the timer that
  delays and merges them is not modelled), the calls of
  \<^verbatim>\<open>triggerFileCacheUpdate\<close> (\<open>published\<close>), and the writes to documents
  (\<open>written\<close>).
\<close>

record ('a, 't) plugin =
  activeFile :: "TAbstractFile option"
  ignoredPaths :: "jstring list"
  indexFiles :: "jstring set"
  fileStates :: "jstring \<rightharpoonup> FileState"
  instanceIndex :: "'a TaskInstanceIndex"
  taskIndex :: 't
  changeDebouncers :: "jstring list"
  debounced :: "(jstring \<times> 'a TaskInstanceIndex IndexUpdateAction) list"
  published :: "'a TaskInstanceIndex IndexUpdateAction list"
  written :: "('a, 't) FileWrite list"

text \<open>
  Modelled from the spec: \<^verbatim>\<open>TaskFileManager.getFileStateHash\<close> and
  \<^verbatim>\<open>setFileStateHash\<close> are not among the sources; the spec names them as the
  per-document bookkeeping of the Cache Status: a table from paths to the status and the
  hash.
\<close>

definition getFileStateHash :: "(jstring \<rightharpoonup> FileState) \<Rightarrow> jstring \<Rightarrow> FileState option" where
  "getFileStateHash fm p = fm p"

definition setFileStateHash :: "(jstring \<rightharpoonup> FileState) \<Rightarrow> jstring \<Rightarrow> FileState \<Rightarrow> (jstring \<rightharpoonup> FileState)" where
  "setFileStateHash fm p fs = fm(p \<mapsto> fs)"

text \<open>
  Modelled from the spec: \<^verbatim>\<open>TaskFileManager.testAndSetFileStatus\<close> is not among
  the sources. The spec: on a change notification, "if the path's status is DIRTY, swallow
  this one notification and flip status back to CLEAN"; the handler calls it with CLEAN and
  returns when the answer is false. So: the answer is whether the recorded status is the
  given one, and a different recorded status is set to the given one. For a path with no
  record the spec says nothing; the model answers false and records nothing. The handlers
  take the test as a parameter; this definition is the one the statements on the status
  after a notification are proved for.
\<close>

definition testAndSetFileStatus ::
  "(jstring \<rightharpoonup> FileState) \<Rightarrow> jstring \<Rightarrow> CacheStatus \<Rightarrow> bool \<times> (jstring \<rightharpoonup> FileState)" where
  "testAndSetFileStatus fm p s =
     (case fm p of
        None \<Rightarrow> (False, fm)
      | Some fs \<Rightarrow> if status fs = s then (True, fm) else (False, fm(p \<mapsto> fs\<lparr>status := s\<rparr>)))"

text \<open>\<^verbatim>\<open>String.prototype.includes\<close>.\<close>

definition includes_str :: "jstring \<Rightarrow> jstring \<Rightarrow> bool" where
  "includes_str s sub = list_ex (\<lambda>i. take (length sub) (drop i s) = sub) [0 ..< Suc (length s)]"

definition ignorePath :: "('a, 't) plugin \<Rightarrow> jstring \<Rightarrow> bool" where
  "ignorePath st p =
     (length (filter (\<lambda>ignored. includes_str p ignored) (ignoredPaths st)) > 0)"

text \<open>
  The handler of \<^verbatim>\<open>file-open\<close> in \<^verbatim>\<open>registerEvents\<close>. \<open>index\<close> is what
  \<^verbatim>\<open>readMarkdownFile\<close> returns for the file.
\<close>

definition onFileOpen ::
  "('a TaskInstanceIndex \<Rightarrow> jstring) \<Rightarrow> (jstring \<Rightarrow> 'a TaskInstanceIndex \<Rightarrow> 'a TaskInstanceIndex) \<Rightarrow>
   TAbstractFile option \<Rightarrow> 'a TaskInstanceIndex \<Rightarrow> ('a, 't) plugin \<Rightarrow> ('a, 't) plugin" where
  "onFileOpen hashFileTaskState filterIndexByPath file index st =
     (case file of
        None \<Rightarrow> st
      | Some f \<Rightarrow>
          if ignorePath st (path f) then st
          else
            (let st1 = st\<lparr>activeFile := Some f\<rparr>;
                 storedIndex = filterIndexByPath (path f) (instanceIndex st1);
                 h = hashFileTaskState index;
                 storedHash = hashFileTaskState storedIndex
             in if storedHash \<noteq> h then
                  (let st2 = st1\<lparr>fileStates := setFileStateHash (fileStates st1) (path f)
                                  \<lparr>status = DIRTY, hash = storedHash\<rparr>\<rparr>
                   in if path f \<in> indexFiles st2
                      then st2\<lparr>written := written st2 @
                             [WriteIndexFile f (instanceIndex st1) (taskIndex st1)]\<rparr>
                      else st2\<lparr>written := written st2 @
                             [WriteStateToFile f (filterIndexByPath (path f) storedIndex)]\<rparr>)
                else st1\<lparr>fileStates := setFileStateHash (fileStates st1) (path f)
                            \<lparr>status = CLEAN, hash = storedHash\<rparr>\<rparr>))"

text \<open>
  What the index of the store holds for a path, keyed by \<^verbatim>\<open>taskLocationStr\<close>:
  \<^verbatim>\<open>values(instanceIndex).filter(i => i.filePath === file.path).reduce(...)\<close>.
\<close>

definition existingFileInstanceIndex ::
  "('a TaskInstance_scheme \<Rightarrow> jstring) \<Rightarrow> ('a, 't) plugin \<Rightarrow> jstring \<Rightarrow> 'a TaskInstanceIndex" where
  "existingFileInstanceIndex taskLocationStr st p =
     foldl (\<lambda>idx i. AList.update (taskLocationStr i) i idx) []
       (filter (\<lambda>i. filePath i = p) (map snd (instanceIndex st)))"

text \<open>
  The live index without the entry of the cursor's line, when that entry has
  \<^verbatim>\<open>uid === 0\<close>.
\<close>

definition dropCursorLine :: "jstring \<Rightarrow> 'a TaskInstanceIndex \<Rightarrow> 'a TaskInstanceIndex" where
  "dropCursorLine cursorLineKey fileInstanceIndex =
     (case map_of fileInstanceIndex cursorLineKey of
        None \<Rightarrow> fileInstanceIndex
      | Some i \<Rightarrow>
          if uid i = 0 then AList.delete cursorLineKey fileInstanceIndex else fileInstanceIndex)"

text \<open>
  \<^verbatim>\<open>handleCacheChanged\<close> of \<^verbatim>\<open>main.ts\<close>. \<open>view\<close> is what
  \<^verbatim>\<open>getActiveViewOfType(MarkdownView)\<close> returns, \<open>live\<close> what
  \<^verbatim>\<open>getInstanceIndexFromFile\<close> returns. The first component of the result is
  the error with which the handler ends, if it does: with no active view, reading
  \<^verbatim>\<open>.editor\<close> of \<^verbatim>\<open>null\<close> is a \<^verbatim>\<open>TypeError\<close>.
\<close>

definition handleCacheChanged ::
  "((jstring \<rightharpoonup> FileState) \<Rightarrow> jstring \<Rightarrow> CacheStatus \<Rightarrow> bool \<times> (jstring \<rightharpoonup> FileState)) \<Rightarrow>
   ('a TaskInstanceIndex \<Rightarrow> jstring) \<Rightarrow> (jstring \<Rightarrow> nat \<Rightarrow> jstring) \<Rightarrow>
   ('a TaskInstance_scheme \<Rightarrow> jstring) \<Rightarrow> MarkdownView option \<Rightarrow> TAbstractFile \<Rightarrow>
   'a TaskInstanceIndex \<Rightarrow> ('a, 't) plugin \<Rightarrow> error option \<times> ('a, 't) plugin" where
  "handleCacheChanged testAndSet hashFileTaskState instanceIndexKey taskLocationStr view file live st =
     (if (case view of None \<Rightarrow> False | Some v \<Rightarrow> view_path v \<noteq> path file) then (None, st)
      else if (case activeFile st of None \<Rightarrow> True | Some a \<Rightarrow> ident a \<noteq> ident file)
              \<or> ignorePath st (path file) then (None, st)
      else
        (case testAndSet (fileStates st) (path file) CLEAN of
           (ok, fm) \<Rightarrow>
             if \<not> ok then (None, st\<lparr>fileStates := fm\<rparr>)
             else
               (case view of
                  None \<Rightarrow> (Some TypeError, st\<lparr>fileStates := fm\<rparr>)
                | Some v \<Rightarrow>
                    (let cursorLineKey = instanceIndexKey (path file) (cursor_line v);
                         fileInstanceIndex = dropCursorLine cursorLineKey live;
                         existing = existingFileInstanceIndex taskLocationStr st (path file)
                     in if hashFileTaskState fileInstanceIndex \<noteq> hashFileTaskState existing
                        then (None, st\<lparr>fileStates := fm,
                                changeDebouncers :=
                                  (if path file \<in> set (changeDebouncers st)
                                   then changeDebouncers st
                                   else changeDebouncers st @ [path file]),
                                debounced := debounced st @
                                  [(path file, MODIFY_FILE_TASKS fileInstanceIndex)]\<rparr>)
                        else (None, st\<lparr>fileStates := fm\<rparr>)))))"

text \<open>\<^verbatim>\<open>handleFileDeleted\<close> and \<^verbatim>\<open>handleFileRenamed\<close>.\<close>

definition handleFileDeleted :: "TAbstractFile \<Rightarrow> ('a, 't) plugin \<Rightarrow> ('a, 't) plugin" where
  "handleFileDeleted abstractFile st =
     (case abstractFile of
        TFile _ p \<Rightarrow>
          if getFileStateHash (fileStates st) p \<noteq> None
          then st\<lparr>published := published st @ [DELETE_FILE p]\<rparr>
          else st
      | TFolder _ _ \<Rightarrow> st)"

definition handleFileRenamed :: "TAbstractFile \<Rightarrow> jstring \<Rightarrow> ('a, 't) plugin \<Rightarrow> ('a, 't) plugin" where
  "handleFileRenamed abstractFile oldp st =
     (if getFileStateHash (fileStates st) oldp \<noteq> None
      then st\<lparr>published := published st @ [RENAME_FILE oldp (path abstractFile)]\<rparr>
      else st)"

text \<open>
  \<^verbatim>\<open>handleCacheChanged\<close> of the earlier variant of the plugin (the second file with
  the class \<^verbatim>\<open>ObsidianTaskManager\<close>): it tests the status first and against
  \<^verbatim>\<open>DIRTY\<close>, has no notion of an active file of its own, and publishes at once
  what \<^verbatim>\<open>getFileTaskState\<close> returns (\<open>state\<close>; \<open>None\<close> is \<^verbatim>\<open>null\<close>).
  Its \<^verbatim>\<open>handleFileDeleted\<close> and \<^verbatim>\<open>handleFileRenamed\<close> are those of
  \<^verbatim>\<open>main.ts\<close>, word for word.
\<close>

definition handleCacheChanged_v1 ::
  "((jstring \<rightharpoonup> FileState) \<Rightarrow> jstring \<Rightarrow> CacheStatus \<Rightarrow> bool \<times> (jstring \<rightharpoonup> FileState)) \<Rightarrow>
   MarkdownView option \<Rightarrow> TAbstractFile \<Rightarrow> 'd option \<Rightarrow> (jstring \<rightharpoonup> FileState) \<Rightarrow>
   (jstring \<rightharpoonup> FileState) \<times> 'd IndexUpdateAction option" where
  "handleCacheChanged_v1 testAndSet view abstractFile state fm =
     (case testAndSet fm (path abstractFile) DIRTY of
        (ok, fm') \<Rightarrow>
          if \<not> ok then (fm', None)
          else if (case view of None \<Rightarrow> False | Some v \<Rightarrow> view_path v \<noteq> path abstractFile)
          then (fm', None)
          else
            (case abstractFile of
               TFile _ _ \<Rightarrow>
                 (case state of
                    None \<Rightarrow> (fm', None)
                  | Some d \<Rightarrow> (fm', Some (MODIFY_FILE_TASKS d)))
             | TFolder _ _ \<Rightarrow> (fm', None)))"

text \<open>The status recorded for a path, if any.\<close>

definition statusOf :: "('a, 't) plugin \<Rightarrow> jstring \<Rightarrow> CacheStatus option" where
  "statusOf st p = map_option status (fileStates st p)"

section \<open>Sample data\<close>

text \<open>
  A plugin in which the document \<open>a.md\<close> is the active file and is recorded as clean, with
  an empty store; a fingerprint, the two key functions and \<^verbatim>\<open>filterIndexByPath\<close> to
  run the handlers with; and a live index with one anonymous task on line 3 of \<open>a.md\<close>.
\<close>

definition sample :: "(unit, unit) plugin" where
  "sample = \<lparr>
     activeFile = Some (TFile 1 (js ''a.md'')), ignoredPaths = [], indexFiles = {},
     fileStates = [js ''a.md'' \<mapsto> \<lparr>status = CLEAN, hash = []\<rparr>],
     instanceIndex = [], taskIndex = (), changeDebouncers = [],
     debounced = [], published = [], written = []\<rparr>"

definition sampleHash :: "unit TaskInstanceIndex \<Rightarrow> jstring" where
  "sampleHash idx = concat (map fst idx)"

definition sampleKey :: "jstring \<Rightarrow> nat \<Rightarrow> jstring" where
  "sampleKey p n = p @ js '':'' @ replicate n (of_char CHR ''|'')"

definition sampleLoc :: "TaskInstance \<Rightarrow> jstring" where
  "sampleLoc i = filePath i"

definition sampleFilter :: "jstring \<Rightarrow> unit TaskInstanceIndex \<Rightarrow> unit TaskInstanceIndex" where
  "sampleFilter p idx = filter (\<lambda>(k, i). filePath i = p) idx"

definition sampleLive :: "unit TaskInstanceIndex" where
  "sampleLive = [(sampleKey (js ''a.md'') 3, \<lparr>filePath = js ''a.md'', uid = 0\<rparr>)]"

section \<open>The strict pattern of the class, in closed form\<close>

text \<open>
  What the matcher computes for \<^verbatim>\<open>TaskParser.strictPattern\<close> at one start position,
  written as functions on the input that backtrack nowhere: \<open>strictAt\<close> reads the marker,
  the blank and the opening bracket, \<open>fromToken\<close> the status token and the closing bracket,
  \<open>afterBracket\<close> the white space and the task line. \<open>strict_eq\<close> below proves that
  the matcher computes exactly this.
\<close>

definition noLT :: "jstring \<Rightarrow> bool" where
  "noLT s = list_all (\<lambda>c. \<not> isLineTerminator c) s"

definition notCaret :: "jchar \<Rightarrow> bool" where
  "notCaret c = (c \<noteq> 94)"

definition taskLineAt :: "(string \<rightharpoonup> jstring) \<Rightarrow> jstring \<Rightarrow> mstate option" where
  "taskLineAt g s =
     (case s of
        [] \<Rightarrow> None
      | c # cs \<Rightarrow>
          if \<not> isSpace c \<and> noLT (dropWhile notCaret cs)
          then Some \<lparr>rest = [], caps = g(''taskLine'' \<mapsto> c # takeWhile notCaret cs)\<rparr>
          else None)"

definition afterBracket :: "(string \<rightharpoonup> jstring) \<Rightarrow> jstring \<Rightarrow> mstate option" where
  "afterBracket g s =
     (case s of
        [] \<Rightarrow> None
      | w # ws \<Rightarrow>
          if isSpace w then
            (case dropWhile isSpace ws of
               [] \<Rightarrow> None
             | c # cs \<Rightarrow>
                 if noLT (dropWhile notCaret cs)
                 then Some \<lparr>rest = [], caps = g(''taskLine'' \<mapsto> c # takeWhile notCaret cs)\<rparr>
                 else None)
          else None)"

definition fromToken :: "jstring \<Rightarrow> mstate option" where
  "fromToken r =
     (case r of
        [] \<Rightarrow> None
      | t # r' \<Rightarrow>
          if isSpace t \<or> t = 120 then
            (case r' of
               [] \<Rightarrow> None
             | b # r'' \<Rightarrow> if b = 93 then afterBracket [''complete'' \<mapsto> [t]] r'' else None)
          else if t = 93 then afterBracket Map.empty r'
          else None)"

definition strictAt :: "jstring \<Rightarrow> mstate option" where
  "strictAt s =
     (case s of
        m # sp # lb # r \<Rightarrow>
          if (m = 45 \<or> m = 42) \<and> sp = 32 \<and> lb = 91 then fromToken r else None
      | _ \<Rightarrow> None)"

section \<open>Lemmas on the matcher\<close>

lemma atLineEnd_False: "atLineEnd False s = (s = [])"
  by (simp add: atLineEnd_def split: list.splits)

lemma case_option_id: "(case x of None \<Rightarrow> None | Some y \<Rightarrow> Some y) = x"
  by (cases x) auto

lemma many_then_end:
  "many a cs (\<lambda>cs'. if cs' = [] then k cs' else None) = (if list_all (inAtom a) cs then k [] else None)"
  by (induction cs) (auto simp: case_option_id)

lemma many_max:
  assumes "\<And>n. n \<le> length (takeWhile (inAtom a) cs) \<Longrightarrow> k (drop n cs) \<noteq> None \<Longrightarrow> k (dropWhile (inAtom a) cs) \<noteq> None"
  shows "many a cs k = k (dropWhile (inAtom a) cs)"
  using assms
proof (induction cs)
  case Nil
  then show ?case by simp
next
  case (Cons c cs)
  show ?case
  proof (cases "inAtom a c")
    case True
    have ih: "many a cs k = k (dropWhile (inAtom a) cs)"
    proof (rule Cons.IH)
      fix n assume n: "n \<le> length (takeWhile (inAtom a) cs)" and k: "k (drop n cs) \<noteq> None"
      from Cons.prems [of "Suc n"] n k True show "k (dropWhile (inAtom a) cs) \<noteq> None" by simp
    qed
    from Cons.prems [of 0] True have "k (c # cs) \<noteq> None \<Longrightarrow> k (dropWhile (inAtom a) cs) \<noteq> None"
      by simp
    then have "k (dropWhile (inAtom a) cs) = None \<Longrightarrow> k (c # cs) = None" by blast
    with ih True show ?thesis by (simp add: case_option_id split: option.splits)
  next
    case False
    then show ?thesis by simp
  qed
qed

lemma noLT_simps: "noLT []" "noLT (c # cs) = (\<not> isLineTerminator c \<and> noLT cs)"
  by (simp_all add: noLT_def)

lemma inAtom_AnyChar: "list_all (inAtom AnyChar) cs = noLT cs"
  by (induction cs) (auto simp: noLT_simps)

lemma inAtom_NoneOf: "inAtom (NoneOf [94]) = notCaret"
  by (rule ext) (simp add: notCaret_def)

lemma inAtom_Space: "inAtom Space = isSpace"
  by (rule ext) simp

lemma noLT_drop: "noLT cs \<Longrightarrow> noLT (drop n cs)"
  unfolding noLT_def by (simp add: list_all_iff) (meson in_set_dropD)

lemma consumed_append: "consumed (xs @ ys) ys = xs"
  by (simp add: consumed_def)

lemma dropWhile_drop:
  "n \<le> length (takeWhile P cs) \<Longrightarrow> dropWhile P cs = drop (length (takeWhile P cs) - n) (drop n cs)"
  by (simp add: dropWhile_eq_drop)

lemma star_eol:
  "rmatch False inp (Seq (Star AnyChar) Eol) k = (\<lambda>t. if noLT (rest t) then k (t\<lparr>rest := []\<rparr>) else None)"
proof
  fix t
  show "rmatch False inp (Seq (Star AnyChar) Eol) k t = (if noLT (rest t) then k (t\<lparr>rest := []\<rparr>) else None)"
    using many_then_end [of AnyChar "rest t" "\<lambda>cs. k (t\<lparr>rest := cs\<rparr>)"]
    by (simp add: inAtom_AnyChar atLineEnd_False cong: if_cong)
qed

lemma tail_eq:
  "rmatch False inp (Seq (Opt (Atom (Chr 94))) (Seq (Star AnyChar) Eol)) k =
     (\<lambda>s. if noLT (rest s) then k (s\<lparr>rest := []\<rparr>) else None)"
proof
  fix s
  show "rmatch False inp (Seq (Opt (Atom (Chr 94))) (Seq (Star AnyChar) Eol)) k s =
     (if noLT (rest s) then k (s\<lparr>rest := []\<rparr>) else None)"
    by (cases "rest s") (auto simp: star_eol isLineTerminator_def noLT_simps split: option.splits)
qed

lemma many_notCaret_tail:
  "many (NoneOf [94]) cs (\<lambda>cs'. if noLT cs' then Some (f cs') else None) =
     (if noLT (dropWhile notCaret cs) then Some (f (dropWhile notCaret cs)) else None)"
proof -
  let ?k = "\<lambda>cs'. if noLT cs' then Some (f cs') else None"
  have "many (NoneOf [94]) cs ?k = ?k (dropWhile (inAtom (NoneOf [94])) cs)"
  proof (rule many_max)
    fix n assume n: "n \<le> length (takeWhile (inAtom (NoneOf [94])) cs)" and "?k (drop n cs) \<noteq> None"
    then have "noLT (drop n cs)" by (simp split: if_splits)
    then have "noLT (dropWhile (inAtom (NoneOf [94])) cs)"
      using dropWhile_drop [OF n] noLT_drop by metis
    then show "?k (dropWhile (inAtom (NoneOf [94])) cs) \<noteq> None" by simp
  qed
  then show ?thesis by (simp only: inAtom_NoneOf)
qed

lemma many_space_max:
  assumes "\<And>cs'. k cs' \<noteq> None \<Longrightarrow> cs' \<noteq> [] \<and> \<not> isSpace (hd cs')"
  shows "many Space ws k = k (dropWhile isSpace ws)"
proof -
  have "many Space ws k = k (dropWhile (inAtom Space) ws)"
  proof (rule many_max)
    fix n assume n: "n \<le> length (takeWhile (inAtom Space) ws)" and k: "k (drop n ws) \<noteq> None"
    from assms [OF k] obtain c cs where d: "drop n ws = c # cs" and c: "\<not> isSpace c"
      by (cases "drop n ws") auto
    have "n = length (takeWhile (inAtom Space) ws)"
    proof (rule ccontr)
      assume "n \<noteq> length (takeWhile (inAtom Space) ws)"
      with n have lt: "n < length (takeWhile (inAtom Space) ws)" by simp
      then have "inAtom Space (takeWhile (inAtom Space) ws ! n)"
        using nth_mem set_takeWhileD by metis
      moreover have "takeWhile (inAtom Space) ws ! n = ws ! n"
        using lt by (rule takeWhile_nth)
      moreover have "ws ! n = c"
        using d by (metis Cons_nth_drop_Suc drop_all linorder_not_less list.inject list.simps(3))
      ultimately show False using c by simp
    qed
    then have "drop n ws = dropWhile (inAtom Space) ws" by (simp add: dropWhile_eq_drop)
    with k show "k (dropWhile (inAtom Space) ws) \<noteq> None" by simp
  qed
  then show ?thesis by (simp only: inAtom_Space)
qed

lemma taskLine_eq:
  "rmatch False inp (Seq (Group ''taskLine'' (Seq (Atom NonSpace) (Star (NoneOf [94]))))
      (Seq (Opt (Atom (Chr 94))) (Seq (Star AnyChar) Eol))) Some =
   (\<lambda>s. taskLineAt (caps s) (rest s))"
proof
  fix s :: mstate
  have cons: "consumed (c # cs) (dropWhile notCaret cs) = c # takeWhile notCaret cs" for c cs
    using consumed_append [of "c # takeWhile notCaret cs" "dropWhile notCaret cs"] by simp
  have rec: "s\<lparr>caps := X, rest := []\<rparr> = \<lparr>rest = [], caps = X\<rparr>" for X
    by (cases s) simp
  show "rmatch False inp (Seq (Group ''taskLine'' (Seq (Atom NonSpace) (Star (NoneOf [94]))))
      (Seq (Opt (Atom (Chr 94))) (Seq (Star AnyChar) Eol))) Some s = taskLineAt (caps s) (rest s)"
  proof (cases "rest s")
    case Nil
    then show ?thesis by (simp add: tail_eq taskLineAt_def)
  next
    case (Cons c cs)
    have "rmatch False inp (Seq (Group ''taskLine'' (Seq (Atom NonSpace) (Star (NoneOf [94]))))
      (Seq (Opt (Atom (Chr 94))) (Seq (Star AnyChar) Eol))) Some s =
      (if \<not> isSpace c then many (NoneOf [94]) cs (\<lambda>cs'. if noLT cs' then
           Some (s\<lparr>caps := (caps s)(''taskLine'' \<mapsto> consumed (c # cs) cs'), rest := []\<rparr>) else None) else None)"
      using Cons by (simp add: tail_eq cong del: if_weak_cong)
    also have "\<dots> = taskLineAt (caps s) (rest s)"
      unfolding many_notCaret_tail using Cons by (simp add: taskLineAt_def cons rec)
    finally show ?thesis .
  qed
qed

lemma taskLineAt_head: "taskLineAt g cs \<noteq> None \<Longrightarrow> cs \<noteq> [] \<and> \<not> isSpace (hd cs)"
  by (auto simp: taskLineAt_def split: list.splits if_splits)

lemma spaces_eq:
  "rmatch False inp (Seq (Plus Space) (Seq (Group ''taskLine'' (Seq (Atom NonSpace) (Star (NoneOf [94]))))
      (Seq (Opt (Atom (Chr 94))) (Seq (Star AnyChar) Eol)))) Some =
   (\<lambda>s. afterBracket (caps s) (rest s))"
proof
  fix s :: mstate
  show "rmatch False inp (Seq (Plus Space) (Seq (Group ''taskLine'' (Seq (Atom NonSpace) (Star (NoneOf [94]))))
      (Seq (Opt (Atom (Chr 94))) (Seq (Star AnyChar) Eol)))) Some s = afterBracket (caps s) (rest s)"
  proof (cases "rest s")
    case Nil
    then show ?thesis by (simp add: afterBracket_def)
  next
    case (Cons w ws)
    note rs = Cons
    have "rmatch False inp (Seq (Plus Space) (Seq (Group ''taskLine'' (Seq (Atom NonSpace) (Star (NoneOf [94]))))
      (Seq (Opt (Atom (Chr 94))) (Seq (Star AnyChar) Eol)))) Some s =
       (if isSpace w then many Space ws (taskLineAt (caps s)) else None)"
      using rs by (simp add: taskLine_eq rmatch.simps(2) [of _ _ "Plus Space"] del: rmatch.simps(2))
    also have "\<dots> = (if isSpace w then taskLineAt (caps s) (dropWhile isSpace ws) else None)"
      using many_space_max [of "taskLineAt (caps s)" ws, OF taskLineAt_head] by simp
    also have "\<dots> = afterBracket (caps s) (rest s)"
    proof (cases "dropWhile isSpace ws")
      case Nil
      show ?thesis by (simp add: afterBracket_def taskLineAt_def Nil rs)
    next
      case (Cons c cs)
      then have "\<not> isSpace c" by (simp add: dropWhile_eq_Cons_conv)
      then show ?thesis by (simp add: afterBracket_def taskLineAt_def Cons rs)
    qed
    finally show ?thesis .
  qed
qed

lemma seq_atom:
  "rmatch ml inp (Seq (Atom a) r) k =
     (\<lambda>s. case rest s of [] \<Rightarrow> None | c # cs \<Rightarrow> if inAtom a c then rmatch ml inp r k (s\<lparr>rest := cs\<rparr>) else None)"
  by (rule ext) simp

lemma close_eq:
  "rmatch False inp (Seq (Atom (Chr 93)) (Seq (Plus Space) (Seq (Group ''taskLine'' (Seq (Atom NonSpace) (Star (NoneOf [94]))))
      (Seq (Opt (Atom (Chr 94))) (Seq (Star AnyChar) Eol))))) Some =
     (\<lambda>s. case rest s of [] \<Rightarrow> None | b # r \<Rightarrow> if b = 93 then afterBracket (caps s) r else None)"
  by (rule ext) (simp add: seq_atom spaces_eq del: rmatch.simps(2) split: list.splits)

lemma isSpace_not: "\<not> isSpace 93" "\<not> isSpace 120"
  by (simp_all add: isSpace_def)

lemma token_eq:
  "rmatch False inp (Seq (Opt (Group ''complete'' (Alt (Atom Space) (Atom (Chr 120)))))
     (Seq (Atom (Chr 93)) (Seq (Plus Space) (Seq (Group ''taskLine'' (Seq (Atom NonSpace) (Star (NoneOf [94]))))
      (Seq (Opt (Atom (Chr 94))) (Seq (Star AnyChar) Eol)))))) Some \<lparr>rest = r, caps = Map.empty\<rparr> = fromToken r"
  apply (subst rmatch.simps(2))
  apply (simp add: close_eq del: rmatch.simps(2))
  apply (auto simp: fromToken_def consumed_def isSpace_not split: list.splits option.splits)
  done

lemma atom_step:
  "rmatch ml inp (Seq (Atom a) r) k \<lparr>rest = cs0, caps = g\<rparr> =
     (case cs0 of [] \<Rightarrow> None | c # cs \<Rightarrow> if inAtom a c then rmatch ml inp r k \<lparr>rest = cs, caps = g\<rparr> else None)"
  by (cases cs0) simp_all

lemma bracket_eq:
  "rmatch False inp (Seq (Atom (Chr 32)) (Seq (Atom (Chr 91))
     (Seq (Opt (Group ''complete'' (Alt (Atom Space) (Atom (Chr 120))))) (Seq (Atom (Chr 93))
       (Seq (Plus Space) (Seq (Group ''taskLine'' (Seq (Atom NonSpace) (Star (NoneOf [94]))))
      (Seq (Opt (Atom (Chr 94))) (Seq (Star AnyChar) Eol)))))))) Some \<lparr>rest = r, caps = Map.empty\<rparr> =
   (case r of sp # lb # r' \<Rightarrow> if sp = 32 \<and> lb = 91 then fromToken r' else None | _ \<Rightarrow> None)"
  by (simp add: atom_step token_eq del: rmatch.simps(2) split: list.splits)

lemma strict_eq:
  "rmatch False inp (source TaskParser_strictPattern) Some \<lparr>rest = s, caps = Map.empty\<rparr> = strictAt s"
proof -
  have src: "source TaskParser_strictPattern =
    Seq (Alt (Atom (Chr 45)) (Atom (Chr 42))) (Seq (Atom (Chr 32)) (Seq (Atom (Chr 91))
     (Seq (Opt (Group ''complete'' (Alt (Atom Space) (Atom (Chr 120))))) (Seq (Atom (Chr 93))
       (Seq (Plus Space) (Seq (Group ''taskLine'' (Seq (Atom NonSpace) (Star (NoneOf [94]))))
      (Seq (Opt (Atom (Chr 94))) (Seq (Star AnyChar) Eol))))))))"
    by (simp add: TaskParser_strictPattern_def)
  show ?thesis
  proof (cases s)
    case Nil
    then show ?thesis unfolding src by (simp add: strictAt_def)
  next
    case (Cons m r)
    show ?thesis
      unfolding src Cons
      apply (subst rmatch.simps(2))
      apply (auto simp: bracket_eq strictAt_def simp del: rmatch.simps(2) split: list.splits option.splits)
      done
  qed
qed

lemma afterBracket_SomeD:
  assumes "afterBracket g s = Some st"
  shows "\<exists>ws c body tl. s = ws @ c # body @ tl \<and> ws \<noteq> [] \<and> list_all isSpace ws \<and> \<not> isSpace c
           \<and> 94 \<notin> set body \<and> (tl = [] \<or> hd tl = 94) \<and> noLT tl
           \<and> st = \<lparr>rest = [], caps = g(''taskLine'' \<mapsto> c # body)\<rparr>"
proof -
  from assms obtain w ws' where s: "s = w # ws'" and w: "isSpace w"
    by (cases s) (auto simp: afterBracket_def split: if_splits)
  from assms s w obtain c cs where d: "dropWhile isSpace ws' = c # cs"
    and lt: "noLT (dropWhile notCaret cs)"
    and st: "st = \<lparr>rest = [], caps = g(''taskLine'' \<mapsto> c # takeWhile notCaret cs)\<rparr>"
    by (cases "dropWhile isSpace ws'") (auto simp: afterBracket_def split: if_splits)
  let ?ws = "w # takeWhile isSpace ws'"
  let ?body = "takeWhile notCaret cs"
  let ?tl = "dropWhile notCaret cs"
  have "ws' = takeWhile isSpace ws' @ c # cs" and c: "\<not> isSpace c"
    using d by (simp_all add: dropWhile_eq_Cons_conv)
  then have "s = ?ws @ c # ?body @ ?tl" using s by simp
  moreover have "list_all isSpace ?ws" using w by (simp add: list_all_iff) (meson set_takeWhileD)
  moreover have "94 \<notin> set ?body" using set_takeWhileD [of 94 notCaret cs] by (auto simp: notCaret_def)
  moreover have "?tl = [] \<or> hd ?tl = 94" using hd_dropWhile [of notCaret cs] by (auto simp: notCaret_def)
  ultimately show ?thesis using c lt st by blast
qed

lemma fromToken_SomeD:
  assumes "fromToken r = Some st"
  shows "\<exists>tok r'. r = tok @ 93 # r' \<and> (tok = [] \<or> tok = [120] \<or> (\<exists>w. tok = [w] \<and> isSpace w))
           \<and> afterBracket (if tok = [] then Map.empty else [''complete'' \<mapsto> tok]) r' = Some st"
proof (cases r)
  case Nil
  with assms show ?thesis by (simp add: fromToken_def)
next
  case (Cons t r')
  show ?thesis
  proof (cases "isSpace t \<or> t = 120")
    case True
    with assms Cons obtain r'' where "r' = 93 # r''" "afterBracket [''complete'' \<mapsto> [t]] r'' = Some st"
      by (cases r') (auto simp: fromToken_def split: if_splits)
    with True Cons show ?thesis by (intro exI [of _ "[t]"] exI [of _ r'']) auto
  next
    case False
    with assms Cons have "t = 93" "afterBracket Map.empty r' = Some st"
      by (auto simp: fromToken_def split: if_splits)
    with Cons show ?thesis by (intro exI [of _ "[]"] exI [of _ r']) auto
  qed
qed

lemma strictAt_SomeD:
  assumes "strictAt s = Some st"
  shows "\<exists>m r. s = m # 32 # 91 # r \<and> (m = 45 \<or> m = 42) \<and> fromToken r = Some st"
  using assms by (auto simp: strictAt_def split: list.splits if_splits)

lemma attempt_strict:
  "attempt False inp (source TaskParser_strictPattern) s = map_option (\<lambda>e. (consumed s (rest e), caps e)) (strictAt s)"
  by (simp add: attempt_def strict_eq)

lemma search_SomeD:
  "search ml inp r s = Some x \<Longrightarrow> \<exists>pre suf. s = pre @ suf \<and> attempt ml inp r suf = Some x"
proof (induction s)
  case Nil
  then show ?case by simp
next
  case (Cons c cs)
  show ?case
  proof (cases "attempt ml inp r (c # cs)")
    case None
    with Cons obtain pre suf where "cs = pre @ suf" "attempt ml inp r suf = Some x" by auto
    then show ?thesis by (intro exI [of _ "c # pre"] exI [of _ suf]) simp
  next
    case (Some y)
    with Cons.prems show ?thesis by (intro exI [of _ "[]"] exI [of _ "c # cs"]) simp
  qed
qed

lemma search_first:
  "attempt ml inp r s = Some x \<Longrightarrow> search ml inp r s = Some x"
  by (cases s) simp_all

text \<open>The line around a match of the strict pattern, and the groups of the match.\<close>

lemma match_strictD:
  assumes "js_match l TaskParser_strictPattern = Some ma"
  shows "\<exists>pre m tok ws c body tl g.
           l = pre @ [m, 32, 91] @ tok @ [93] @ ws @ c # body @ tl
         \<and> (m = 45 \<or> m = 42)
         \<and> (tok = [] \<or> tok = [120] \<or> (\<exists>w. tok = [w] \<and> isSpace w))
         \<and> ws \<noteq> [] \<and> list_all isSpace ws \<and> \<not> isSpace c
         \<and> 94 \<notin> set body \<and> (tl = [] \<or> hd tl = 94) \<and> noLT tl
         \<and> groups ma = Some g
         \<and> g ''taskLine'' = Some (c # body)
         \<and> g ''complete'' = (if tok = [] then None else Some tok)"
proof -
  have fl: "global TaskParser_strictPattern = False" "multiline TaskParser_strictPattern = False"
    by (simp_all add: TaskParser_strictPattern_def)
  from assms obtain mt g where se: "search False l (source TaskParser_strictPattern) l = Some (mt, g)"
    and ma: "ma = \<lparr>matched = mt, groups = Some g\<rparr>"
    by (auto simp: js_match_def fl split: option.splits)
  from search_SomeD [OF se] obtain pre suf where l: "l = pre @ suf"
    and at: "attempt False l (source TaskParser_strictPattern) suf = Some (mt, g)" by blast
  from at obtain st where st: "strictAt suf = Some st" and g: "g = caps st"
    by (auto simp: attempt_strict)
  from strictAt_SomeD [OF st] obtain m r where suf: "suf = m # 32 # 91 # r" and m: "m = 45 \<or> m = 42"
    and ft: "fromToken r = Some st" by blast
  from fromToken_SomeD [OF ft] obtain tok r' where r: "r = tok @ 93 # r'"
    and tok: "tok = [] \<or> tok = [120] \<or> (\<exists>w. tok = [w] \<and> isSpace w)"
    and ab: "afterBracket (if tok = [] then Map.empty else [''complete'' \<mapsto> tok]) r' = Some st" by blast
  from afterBracket_SomeD [OF ab] obtain ws c body tl where r': "r' = ws @ c # body @ tl"
    and rest: "ws \<noteq> []" "list_all isSpace ws" "\<not> isSpace c" "94 \<notin> set body" "tl = [] \<or> hd tl = 94" "noLT tl"
    and st': "st = \<lparr>rest = [], caps = (if tok = [] then Map.empty else [''complete'' \<mapsto> tok])(''taskLine'' \<mapsto> c # body)\<rparr>"
    by blast
  have "l = pre @ [m, 32, 91] @ tok @ [93] @ ws @ c # body @ tl"
    using l suf r r' by simp
  moreover have "g ''taskLine'' = Some (c # body)" using g st' by simp
  moreover have "g ''complete'' = (if tok = [] then None else Some tok)" using g st' by simp
  moreover have "groups ma = Some g" using ma by simp
  ultimately show ?thesis using m tok rest by blast
qed

text \<open>What \<open>parseLine\<close> returns, read off the line.\<close>

lemma parseLine_SomeD:
  assumes "parseLine e l = Inr (Some t)"
  shows "\<exists>pre m tok ws c body tl.
           l = pre @ [m, 32, 91] @ tok @ [93] @ ws @ c # body @ tl
         \<and> (m = 45 \<or> m = 42)
         \<and> (tok = [] \<or> tok = [120] \<or> (\<exists>w. tok = [w] \<and> isSpace w))
         \<and> ws \<noteq> [] \<and> list_all isSpace ws \<and> \<not> isSpace c
         \<and> 94 \<notin> set body \<and> (tl = [] \<or> hd tl = 94)
         \<and> t = e\<lparr>complete := (tok = [120]), name := trim (c # body)\<rparr>"
proof -
  from assms obtain ma where ma: "js_match l TaskParser_strictPattern = Some ma"
    by (auto simp: parseLine_def split: option.splits)
  from match_strictD [OF ma] obtain pre m tok ws c body tl g where
    d: "l = pre @ [m, 32, 91] @ tok @ [93] @ ws @ c # body @ tl" "m = 45 \<or> m = 42"
       "tok = [] \<or> tok = [120] \<or> (\<exists>w. tok = [w] \<and> isSpace w)"
       "ws \<noteq> []" "list_all isSpace ws" "\<not> isSpace c" "94 \<notin> set body" "tl = [] \<or> hd tl = 94"
    and g: "groups ma = Some g" "g ''taskLine'' = Some (c # body)"
       "g ''complete'' = (if tok = [] then None else Some tok)"
    by blast
  have "(g ''complete'' = Some (js ''x'')) = (tok = [120])"
    using g(3) by (auto simp: js_def)
  with assms ma g have "t = e\<lparr>complete := (tok = [120]), name := trim (c # body)\<rparr>"
    by (simp add: parseLine_def)
  with d show ?thesis by blast
qed

lemma parseLine_no_error: "parseLine e l \<noteq> Inl err"
proof (cases "js_match l TaskParser_strictPattern")
  case None
  then show ?thesis by (simp add: parseLine_def)
next
  case (Some ma)
  from match_strictD [OF Some] obtain g tl where "groups ma = Some g" "g ''taskLine'' = Some tl"
    by blast
  with Some show ?thesis by (simp add: parseLine_def)
qed


lemma strictAt_token:
  assumes m: "m = 45 \<or> m = 42"
    and tok: "tok = [] \<or> tok = [120] \<or> (\<exists>w. tok = [w] \<and> isSpace w)"
    and w: "isSpace w" and c: "\<not> isSpace c" and lt: "noLT body"
  shows "strictAt (m # 32 # 91 # tok @ 93 # w # c # body) =
     Some \<lparr>rest = [], caps = (if tok = [] then Map.empty else [''complete'' \<mapsto> tok])
       (''taskLine'' \<mapsto> c # takeWhile notCaret body)\<rparr>"
proof -
  have "noLT (dropWhile notCaret body)"
    using lt noLT_drop [of body "length (takeWhile notCaret body)"] by (simp add: dropWhile_eq_drop)
  then have ab: "afterBracket g (w # c # body) =
      Some \<lparr>rest = [], caps = g(''taskLine'' \<mapsto> c # takeWhile notCaret body)\<rparr>" for g
    using w c by (simp add: afterBracket_def)
  have "fromToken (tok @ 93 # w # c # body) =
     Some \<lparr>rest = [], caps = (if tok = [] then Map.empty else [''complete'' \<mapsto> tok])
       (''taskLine'' \<mapsto> c # takeWhile notCaret body)\<rparr>"
    using tok by (auto simp: fromToken_def ab isSpace_not)
  then show ?thesis using m by (auto simp: strictAt_def)
qed

lemma parseLine_token:
  assumes m: "m = 45 \<or> m = 42"
    and tok: "tok = [] \<or> tok = [120] \<or> (\<exists>w. tok = [w] \<and> isSpace w)"
    and w: "isSpace w" and c: "\<not> isSpace c" and lt: "noLT body"
  shows "parseLine e (m # 32 # 91 # tok @ 93 # w # c # body) =
     Inr (Some (e\<lparr>complete := (tok = [120]), name := trim (c # takeWhile notCaret body)\<rparr>))"
proof -
  let ?l = "m # 32 # 91 # tok @ 93 # w # c # body"
  let ?g = "(if tok = [] then Map.empty else [''complete'' \<mapsto> tok])(''taskLine'' \<mapsto> c # takeWhile notCaret body)"
  have "attempt False ?l (source TaskParser_strictPattern) ?l = Some (?l, ?g)"
    unfolding attempt_strict strictAt_token [OF assms] by (simp add: consumed_def)
  then have "search False ?l (source TaskParser_strictPattern) ?l = Some (?l, ?g)"
    by (rule search_first)
  then have "js_match ?l TaskParser_strictPattern = Some \<lparr>matched = ?l, groups = Some ?g\<rparr>"
    by (simp add: js_match_def TaskParser_strictPattern_def)
  moreover have "(?g ''complete'' = Some (js ''x'')) = (tok = [120])"
    by (auto simp: js_def)
  ultimately show ?thesis by (simp add: parseLine_def)
qed

lemmas eval_defs = parseLine_def js_match_def TaskParser_strictPattern_def strictPattern_def
  attempt_def consumed_def atLineEnd_def atLineStart_def isSpace_def isLineTerminator_def
  trim_def js_def

section \<open>The line parser\<close>

text \<open>
  Against C2 as it is written: \<^verbatim>\<open>* [X] Review PR\<close> is no task for
  \<^verbatim>\<open>parseLine\<close>. The strict pattern, the only one \<^verbatim>\<open>parseLine\<close> matches
  against, has no upper-case \<^verbatim>\<open>X\<close> in its status token.
\<close>

theorem parseLine_upper_X_counterexample:
  "parseLine \<lparr>complete = False, name = []\<rparr> (js ''* [X] Review PR'') = Inr None"
  by (simp add: eval_defs)

text \<open>
  The general pattern does match that line, with the group \<^verbatim>\<open>complete\<close> holding
  \<^verbatim>\<open>X\<close>; no function of the sources matches against it.
\<close>

lemma generalPattern_upper_X:
  "map_option groups (js_match (js ''* [X] Review PR'') TaskParser_generalPattern) =
     Some (Some [''complete'' \<mapsto> js ''X'', ''taskLine'' \<mapsto> js ''Review PR''])"
  by (simp add: eval_defs TaskParser_generalPattern_def)

text \<open>
  C2, amended. The status token that \<^verbatim>\<open>parseLine\<close> accepts between the brackets is
  nothing at all, one white space character, or the lower-case letter \<^verbatim>\<open>x\<close>:
  whenever \<^verbatim>\<open>parseLine\<close> returns a task, the line holds a marker
  \<^verbatim>\<open>-\<close> or \<^verbatim>\<open>*\<close>, a blank, and a bracket pair around such a token, and the
  task is complete exactly when the token is \<^verbatim>\<open>x\<close>. Conversely a line that starts
  with a marker, a blank, such a token in brackets, a white space character and a text that
  begins with a character other than white space and has no line terminator is a task,
  complete exactly when the token is \<^verbatim>\<open>x\<close>. \<^verbatim>\<open>* [X] Review PR\<close> and
  \<^verbatim>\<open>- [z] bad status\<close> yield no match.
\<close>

theorem parseLine_status_token:
  "(parseLine e l = Inr (Some t) \<longrightarrow>
      (\<exists>pre m tok r. l = pre @ m # js '' ['' @ tok @ js '']'' @ r
         \<and> (m = of_char CHR ''-'' \<or> m = of_char CHR ''*'')
         \<and> (tok = [] \<or> tok = js ''x'' \<or> (\<exists>w. tok = [w] \<and> isSpace w))
         \<and> complete t = (tok = js ''x'')))
 \<and> ((m = of_char CHR ''-'' \<or> m = of_char CHR ''*'')
      \<and> (tok = [] \<or> tok = js ''x'' \<or> (\<exists>w. tok = [w] \<and> isSpace w))
      \<and> isSpace w \<and> \<not> isSpace c \<and> list_all (\<lambda>x. \<not> isLineTerminator x) body \<longrightarrow>
      (\<exists>t'. parseLine e (m # js '' ['' @ tok @ js '']'' @ w # c # body) = Inr (Some t')
         \<and> complete t' = (tok = js ''x'')))
 \<and> parseLine e (js ''* [X] Review PR'') = Inr None
 \<and> parseLine e (js ''- [z] bad status'') = Inr None"
proof (intro conjI impI)
  assume "parseLine e l = Inr (Some t)"
  from parseLine_SomeD [OF this] obtain pre m tok ws c body tl where
    "l = pre @ [m, 32, 91] @ tok @ [93] @ ws @ c # body @ tl" "m = 45 \<or> m = 42"
    "tok = [] \<or> tok = [120] \<or> (\<exists>w. tok = [w] \<and> isSpace w)"
    "t = e\<lparr>complete := (tok = [120]), name := trim (c # body)\<rparr>"
    by blast
  then show "\<exists>pre m tok r. l = pre @ m # js '' ['' @ tok @ js '']'' @ r
         \<and> (m = of_char CHR ''-'' \<or> m = of_char CHR ''*'')
         \<and> (tok = [] \<or> tok = js ''x'' \<or> (\<exists>w. tok = [w] \<and> isSpace w))
         \<and> complete t = (tok = js ''x'')"
    by (intro exI [of _ pre] exI [of _ m] exI [of _ tok] exI [of _ "ws @ c # body @ tl"])
       (simp add: js_def)
next
  assume a: "(m = of_char CHR ''-'' \<or> m = of_char CHR ''*'')
      \<and> (tok = [] \<or> tok = js ''x'' \<or> (\<exists>w. tok = [w] \<and> isSpace w))
      \<and> isSpace w \<and> \<not> isSpace c \<and> list_all (\<lambda>x. \<not> isLineTerminator x) body"
  then have "parseLine e (m # 32 # 91 # tok @ 93 # w # c # body) =
     Inr (Some (e\<lparr>complete := (tok = [120]), name := trim (c # takeWhile notCaret body)\<rparr>))"
    by (intro parseLine_token) (auto simp: js_def noLT_def)
  then show "\<exists>t'. parseLine e (m # js '' ['' @ tok @ js '']'' @ w # c # body) = Inr (Some t')
         \<and> complete t' = (tok = js ''x'')"
    by (simp add: js_def)
next
  show "parseLine e (js ''* [X] Review PR'') = Inr None" by (simp add: eval_defs)
  show "parseLine e (js ''- [z] bad status'') = Inr None" by (simp add: eval_defs)
qed

theorem parseLine_status_token_witness:
  "(\<exists>pre m tok r. js ''- [x] Call Bob'' = pre @ m # js '' ['' @ tok @ js '']'' @ r
         \<and> (m = of_char CHR ''-'' \<or> m = of_char CHR ''*'')
         \<and> (tok = [] \<or> tok = js ''x'' \<or> (\<exists>w. tok = [w] \<and> isSpace w))
         \<and> complete \<lparr>complete = True, name = js ''Call Bob''\<rparr> = (tok = js ''x''))
 \<and> (\<exists>t'. parseLine \<lparr>complete = False, name = []\<rparr>
            (of_char CHR ''*'' # js '' ['' @ js '' '' @ js '']'' @ of_char CHR '' '' # of_char CHR ''a'' # js ''bc'')
          = Inr (Some t') \<and> complete t' = (js '' '' = js ''x''))"
proof -
  have p: "parseLine \<lparr>complete = False, name = []\<rparr> (js ''- [x] Call Bob'') =
      Inr (Some \<lparr>complete = True, name = js ''Call Bob''\<rparr>)"
    by (simp add: eval_defs)
  have q: "(of_char CHR ''*'' = (of_char CHR ''-'' :: nat) \<or> of_char CHR ''*'' = (of_char CHR ''*'' :: nat))
      \<and> (js '' '' = [] \<or> js '' '' = js ''x'' \<or> (\<exists>w. js '' '' = [w] \<and> isSpace w))
      \<and> isSpace (of_char CHR '' '') \<and> \<not> isSpace (of_char CHR ''a'')
      \<and> list_all (\<lambda>x. \<not> isLineTerminator x) (js ''bc'')"
    by (simp add: js_def isSpace_def isLineTerminator_def)
  from parseLine_status_token [of "\<lparr>complete = False, name = []\<rparr>" "js ''- [x] Call Bob''"
      "\<lparr>complete = True, name = js ''Call Bob''\<rparr>" "of_char CHR ''*''" "js '' ''" "of_char CHR '' ''"
      "of_char CHR ''a''" "js ''bc''"] p q
  show ?thesis by blast
qed




text \<open>
  C4. For every input string \<^verbatim>\<open>parseLine\<close> returns: it ends in no error, since in
  every match of the strict pattern the group \<^verbatim>\<open>taskLine\<close> has taken part, and the
  pattern has no flag \<^verbatim>\<open>g\<close>, so that \<^verbatim>\<open>groups\<close> is there. The result is
  \<^verbatim>\<open>null\<close> or \<^verbatim>\<open>emptyTask\<close> with \<^verbatim>\<open>complete\<close> and
  \<^verbatim>\<open>name\<close> set. It is a function of \<^verbatim>\<open>emptyTask\<close> and the line alone:
  the matcher terminates by recursion on the pattern and the input, and reads no other state
  (without the flags \<^verbatim>\<open>g\<close> and \<^verbatim>\<open>y\<close> a match does not read
  \<^verbatim>\<open>lastIndex\<close>).
\<close>

theorem parseLine_total:
  "(\<exists>r. parseLine e l = Inr r)
 \<and> (parseLine e l = Inr None
      \<or> (\<exists>c n. parseLine e l = Inr (Some (e\<lparr>complete := c, name := n\<rparr>))))"
proof -
  obtain r where r: "parseLine e l = Inr r"
    using parseLine_no_error [of e l] by (cases "parseLine e l") auto
  show ?thesis
  proof (cases r)
    case None
    with r show ?thesis by simp
  next
    case (Some t)
    with r have "parseLine e l = Inr (Some t)" by simp
    from parseLine_SomeD [OF this] r Some show ?thesis by blast
  qed
qed

text \<open>
  C8 fails on the code: the strict pattern of the class is not anchored, so a marker behind
  other text is found (\<^verbatim>\<open>foo - [ ] bar\<close> is the task \<^verbatim>\<open>bar\<close>), and the
  first character of the body may be a caret (\<^verbatim>\<open>- [ ] ^abc\<close> has the text
  \<^verbatim>\<open>^abc\<close>). The pattern of the module, which starts with \<^verbatim>\<open>^\s*\<close>,
  rejects the first line.
\<close>

theorem parseLine_unanchored:
  "parseLine e (js ''foo - [ ] bar'') = Inr (Some (e\<lparr>complete := False, name := js ''bar''\<rparr>))
 \<and> parseLine e (js ''- [ ] ^abc'') = Inr (Some (e\<lparr>complete := False, name := js ''^abc''\<rparr>))
 \<and> js_match (js ''foo - [ ] bar'') strictPattern = None"
  by (simp add: eval_defs)

section \<open>parseFileContents\<close>

text \<open>
  The pattern of the module has the flag \<^verbatim>\<open>g\<close>: a match carries no
  \<^verbatim>\<open>groups\<close>, so \<^verbatim>\<open>parseFileContents\<close> ends in a
  \<^verbatim>\<open>TypeError\<close> at the first cached task line that matches, and where it returns
  it returns the empty record.
\<close>

lemma strictPattern_groups: "js_match l strictPattern = Some ma \<Longrightarrow> groups ma = None"
  by (auto simp: js_match_def strictPattern_def split: option.splits)

lemma parseFileContents_loop_Inr:
  "parseFileContents_loop parseInt p lns items ret = Inr ret' \<Longrightarrow> ret' = ret"
proof (induction items arbitrary: ret)
  case Nil
  then show ?case by simp
next
  case (Cons li items)
  then show ?case
    by (auto simp: Let_def strictPattern_groups split: if_splits option.splits)
qed

text \<open>
  Whenever \<^verbatim>\<open>parseFileContents\<close> returns, it returns the empty record: no input
  makes it return a task.
\<close>

theorem parseFileContents_returns_empty:
  "parseFileContents parseInt p contents cache = Inr ret \<Longrightarrow> ret = Map.empty"
  unfolding parseFileContents_def by (rule parseFileContents_loop_Inr)

theorem parseFileContents_returns_empty_witness:
  "parseFileContents (\<lambda>s. length s) (js ''a.md'') (js ''a'' @ [10] @ js ''- [ ] b'')
     \<lparr>listItems = [\<lparr>task = Some (js '' ''), start_line = 1, parent = - 1\<rparr>]\<rparr> = Inr Map.empty
 \<and> (Map.empty :: nat \<rightharpoonup> nat AnonymousDisplayTask) = Map.empty"
proof -
  have h: "parseFileContents (\<lambda>s. length s) (js ''a.md'') (js ''a'' @ [10] @ js ''- [ ] b'')
     \<lparr>listItems = [\<lparr>task = Some (js '' ''), start_line = 1, parent = - 1\<rparr>]\<rparr> = Inr Map.empty"
    by (simp add: parseFileContents_def split_CR_or_LF_def truthy_def eval_defs)
  from h parseFileContents_returns_empty [OF h] show ?thesis by simp
qed

text \<open>
  C5 fails on the code. A cached task line in range that matches the pattern ends the call
  in a \<^verbatim>\<open>TypeError\<close> (first equation). And the lines are counted with the
  separators between them: in a document of two lines the cached line 2 is in range of the
  array of three elements (second equation), and the cached line 1 is the separator, not the
  second line (third equation). Only with a line number beyond that array the call fails as
  the claim says (fourth equation).
\<close>

theorem parseFileContents_throws_on_match:
  "parseFileContents parseInt p (js ''- [ ] a'')
     \<lparr>listItems = [\<lparr>task = Some (js '' ''), start_line = 0, parent = - 1\<rparr>]\<rparr> = Inl TypeError
 \<and> parseFileContents parseInt p (js ''a'' @ [10] @ js ''b'')
     \<lparr>listItems = [\<lparr>task = Some (js '' ''), start_line = 2, parent = - 1\<rparr>]\<rparr> = Inr Map.empty
 \<and> parseFileContents parseInt p (js ''a'' @ [10] @ js ''- [ ] b'')
     \<lparr>listItems = [\<lparr>task = Some (js '' ''), start_line = 1, parent = - 1\<rparr>]\<rparr> = Inr Map.empty
 \<and> parseFileContents parseInt p (js ''a'')
     \<lparr>listItems = [\<lparr>task = Some (js '' ''), start_line = 1, parent = - 1\<rparr>]\<rparr> =
       Inl (Error ''Cache line number cannot be longer than file lines.'')"
  by (simp add: parseFileContents_def split_CR_or_LF_def truthy_def eval_defs)

section \<open>The event handlers\<close>

text \<open>
  Below \<open>T\<close> stands for \<^verbatim>\<open>testAndSetFileStatus\<close>, \<open>H\<close> for
  \<^verbatim>\<open>hashFileTaskState\<close>, \<open>K\<close> for \<^verbatim>\<open>instanceIndexKey\<close>, \<open>L\<close> for
  \<^verbatim>\<open>taskLocationStr\<close> and \<open>F\<close> for \<^verbatim>\<open>filterIndexByPath\<close>.
\<close>

lemma handleCacheChanged_frame:
  "instanceIndex (snd (handleCacheChanged T H K L view doc live st)) = instanceIndex st
 \<and> taskIndex (snd (handleCacheChanged T H K L view doc live st)) = taskIndex st
 \<and> published (snd (handleCacheChanged T H K L view doc live st)) = published st
 \<and> written (snd (handleCacheChanged T H K L view doc live st)) = written st
 \<and> activeFile (snd (handleCacheChanged T H K L view doc live st)) = activeFile st
 \<and> ignoredPaths (snd (handleCacheChanged T H K L view doc live st)) = ignoredPaths st"
  by (simp add: handleCacheChanged_def Let_def split: option.splits prod.splits)

text \<open>The calls of the debounced function after the handler: when it asks, and for what.\<close>

lemma handleCacheChanged_debounced:
  "debounced (snd (handleCacheChanged T H K L view doc live st)) =
     (case view of
        None \<Rightarrow> debounced st
      | Some v \<Rightarrow>
          if view_path v = path doc
             \<and> (case activeFile st of None \<Rightarrow> False | Some a \<Rightarrow> ident a = ident doc)
             \<and> \<not> ignorePath st (path doc)
             \<and> fst (T (fileStates st) (path doc) CLEAN)
             \<and> H (dropCursorLine (K (path doc) (cursor_line v)) live) \<noteq>
                 H (existingFileInstanceIndex L st (path doc))
          then debounced st @
                 [(path doc, MODIFY_FILE_TASKS (dropCursorLine (K (path doc) (cursor_line v)) live))]
          else debounced st)"
  by (auto simp: handleCacheChanged_def Let_def split: option.splits prod.splits if_splits)

lemma testAndSetFileStatus_fst:
  "fst (testAndSetFileStatus fm p s) = (case fm p of None \<Rightarrow> False | Some fs \<Rightarrow> status fs = s)"
  by (simp add: testAndSetFileStatus_def split: option.splits)

lemma onFileOpen_differ:
  assumes "\<not> ignorePath st (path f)" and "H index \<noteq> H (F (path f) (instanceIndex st))"
  shows "onFileOpen H F (Some f) index st =
           st\<lparr>activeFile := Some f,
              fileStates := (fileStates st)(path f \<mapsto>
                 \<lparr>status = DIRTY, hash = H (F (path f) (instanceIndex st))\<rparr>),
              written := written st @
                [if path f \<in> indexFiles st then WriteIndexFile f (instanceIndex st) (taskIndex st)
                 else WriteStateToFile f (F (path f) (F (path f) (instanceIndex st)))]\<rparr>"
  using assms by (simp add: onFileOpen_def Let_def setFileStateHash_def)

lemma onFileOpen_equal:
  assumes "\<not> ignorePath st (path f)" and "H index = H (F (path f) (instanceIndex st))"
  shows "onFileOpen H F (Some f) index st =
           st\<lparr>activeFile := Some f,
              fileStates := (fileStates st)(path f \<mapsto> \<lparr>status = CLEAN, hash = H index\<rparr>)\<rparr>"
  using assms by (simp add: onFileOpen_def Let_def setFileStateHash_def)

lemma handleCacheChanged_swallow:
  assumes "case view of None \<Rightarrow> True | Some v \<Rightarrow> view_path v = path doc"
    and "activeFile st = Some a" and "ident a = ident doc"
    and "\<not> ignorePath st (path doc)"
    and "fileStates st (path doc) = Some fs" and "status fs = DIRTY"
  shows "handleCacheChanged testAndSetFileStatus H K L view doc live st =
           (None, st\<lparr>fileStates := (fileStates st)(path doc \<mapsto> fs\<lparr>status := CLEAN\<rparr>)\<rparr>)"
  using assms
  by (auto simp: handleCacheChanged_def testAndSetFileStatus_def split: option.splits)

lemma handleCacheChanged_equal:
  assumes "view = Some v" and "view_path v = path doc"
    and "activeFile st = Some a" and "ident a = ident doc"
    and "\<not> ignorePath st (path doc)"
    and "fileStates st (path doc) = Some fs"
    and "H (dropCursorLine (K (path doc) (cursor_line v)) live) =
           H (existingFileInstanceIndex L st (path doc))"
  shows "handleCacheChanged testAndSetFileStatus H K L view doc live st =
           (None, st\<lparr>fileStates := (fileStates st)(path doc \<mapsto> fs\<lparr>status := CLEAN\<rparr>)\<rparr>)"
proof (cases "status fs")
  case CLEAN
  then have "fs\<lparr>status := CLEAN\<rparr> = fs" by simp
  then have "(fileStates st)(path doc \<mapsto> fs\<lparr>status := CLEAN\<rparr>) = fileStates st"
    using assms(6) by (simp add: fun_upd_idem)
  then show ?thesis using assms CLEAN
    by (simp add: handleCacheChanged_def testAndSetFileStatus_def Let_def)
next
  case DIRTY
  then show ?thesis using assms
    by (simp add: handleCacheChanged_def testAndSetFileStatus_def Let_def)
qed

lemmas sample_defs = sample_def sampleHash_def sampleKey_def sampleLoc_def sampleFilter_def
  sampleLive_def ignorePath_def existingFileInstanceIndex_def dropCursorLine_def js_def statusOf_def

text \<open>
  The handler does ask for a reconciliation of the active, focused, clean document whose
  fingerprints differ.
\<close>

lemma handleCacheChanged_dispatches:
  "debounced (snd (handleCacheChanged testAndSetFileStatus sampleHash sampleKey sampleLoc
      (Some \<lparr>view_path = js ''a.md'', cursor_line = 0\<rparr>) (TFile 1 (js ''a.md'')) sampleLive sample)) =
     [(js ''a.md'', MODIFY_FILE_TASKS sampleLive)]"
  unfolding handleCacheChanged_debounced by (simp add: sample_defs testAndSetFileStatus_fst)

text \<open>
  Against C1 as it is written: the notification that follows a write-back does not always
  flip the status. \<^verbatim>\<open>handleCacheChanged\<close> looks at the active Markdown view
  before it tests the status, and returns at once when that view shows another document.
  Here the handler of \<^verbatim>\<open>file-open\<close> writes \<open>a.md\<close> back and records DIRTY,
  the notification for \<open>a.md\<close> arrives while the view shows \<open>b.md\<close>, and the status
  of \<open>a.md\<close> is DIRTY after it.
\<close>

theorem self_write_other_view_counterexample:
  "length (written (onFileOpen sampleHash sampleFilter (Some (TFile 1 (js ''a.md''))) sampleLive sample)) = 1
 \<and> statusOf (onFileOpen sampleHash sampleFilter (Some (TFile 1 (js ''a.md''))) sampleLive sample)
     (js ''a.md'') = Some DIRTY
 \<and> statusOf (snd (handleCacheChanged testAndSetFileStatus sampleHash sampleKey sampleLoc
      (Some \<lparr>view_path = js ''b.md'', cursor_line = 0\<rparr>) (TFile 1 (js ''a.md'')) sampleLive
      (onFileOpen sampleHash sampleFilter (Some (TFile 1 (js ''a.md''))) sampleLive sample)))
     (js ''a.md'') = Some DIRTY"
  by (simp add: handleCacheChanged_def onFileOpen_def setFileStateHash_def Let_def sample_defs)

text \<open>
  C1, amended. The handler of \<^verbatim>\<open>file-open\<close> records DIRTY before it writes a
  document back, and no notification for a document recorded as DIRTY asks for a
  reconciliation. When the notification that follows the write-back arrives while the
  document is still the file of the active Markdown view (or there is no such view), it
  ends without error, asks for no reconciliation, and leaves the status CLEAN; the
  notification after that one is compared again, and asks for a reconciliation exactly when
  the fingerprints differ. When it arrives while the active view shows another document,
  the handler returns at once, whatever the test of the status does, and the status stays
  DIRTY.
\<close>

theorem self_write_swallowed_once:
  "(\<not> ignorePath st (path f) \<and> H index \<noteq> H (F (path f) (instanceIndex st))
      \<and> (case view of None \<Rightarrow> True | Some v \<Rightarrow> view_path v = path f) \<longrightarrow>
      (let st1 = onFileOpen H F (Some f) index st;
           r = handleCacheChanged testAndSetFileStatus H K L view f live st1
       in length (written st1) = Suc (length (written st))
        \<and> statusOf st1 (path f) = Some DIRTY
        \<and> fst r = None
        \<and> debounced (snd r) = debounced st \<and> published (snd r) = published st
        \<and> statusOf (snd r) (path f) = Some CLEAN
        \<and> debounced (snd (handleCacheChanged testAndSetFileStatus H K L
              (Some \<lparr>view_path = path f, cursor_line = n\<rparr>) f live' (snd r))) =
            (if H (dropCursorLine (K (path f) n) live') \<noteq> H (existingFileInstanceIndex L st (path f))
             then debounced st @ [(path f, MODIFY_FILE_TASKS (dropCursorLine (K (path f) n) live'))]
             else debounced st)))
 \<and> (statusOf st (path doc) = Some DIRTY \<longrightarrow>
      debounced (snd (handleCacheChanged testAndSetFileStatus H K L view doc live st)) = debounced st
    \<and> published (snd (handleCacheChanged testAndSetFileStatus H K L view doc live st)) = published st)
 \<and> (\<not> ignorePath st (path f) \<and> H index \<noteq> H (F (path f) (instanceIndex st))
      \<and> view_path v \<noteq> path f \<longrightarrow>
      handleCacheChanged T H K L (Some v) f live (onFileOpen H F (Some f) index st) =
        (None, onFileOpen H F (Some f) index st)
    \<and> statusOf (onFileOpen H F (Some f) index st) (path f) = Some DIRTY)"
proof (intro conjI impI)
  assume a: "\<not> ignorePath st (path f) \<and> H index \<noteq> H (F (path f) (instanceIndex st))
      \<and> (case view of None \<Rightarrow> True | Some v \<Rightarrow> view_path v = path f)"
  let ?fs = "\<lparr>status = DIRTY, hash = H (F (path f) (instanceIndex st))\<rparr>"
  let ?st1 = "st\<lparr>activeFile := Some f,
              fileStates := (fileStates st)(path f \<mapsto> ?fs),
              written := written st @
                [if path f \<in> indexFiles st then WriteIndexFile f (instanceIndex st) (taskIndex st)
                 else WriteStateToFile f (F (path f) (F (path f) (instanceIndex st)))]\<rparr>"
  let ?st2 = "?st1\<lparr>fileStates := (fileStates ?st1)(path f \<mapsto> ?fs\<lparr>status := CLEAN\<rparr>)\<rparr>"
  have 1: "onFileOpen H F (Some f) index st = ?st1"
    using a by (simp add: onFileOpen_differ)
  have 2: "handleCacheChanged testAndSetFileStatus H K L view f live ?st1 = (None, ?st2)"
    using a by (intro handleCacheChanged_swallow [where a = f]) (auto simp: ignorePath_def)
  have 3: "debounced (snd (handleCacheChanged testAndSetFileStatus H K L
              (Some \<lparr>view_path = path f, cursor_line = n\<rparr>) f live' ?st2)) =
            (if H (dropCursorLine (K (path f) n) live') \<noteq> H (existingFileInstanceIndex L st (path f))
             then debounced st @ [(path f, MODIFY_FILE_TASKS (dropCursorLine (K (path f) n) live'))]
             else debounced st)"
    unfolding handleCacheChanged_debounced using a
    by (simp add: ignorePath_def existingFileInstanceIndex_def testAndSetFileStatus_fst)
  show "let st1 = onFileOpen H F (Some f) index st;
           r = handleCacheChanged testAndSetFileStatus H K L view f live st1
       in length (written st1) = Suc (length (written st))
        \<and> statusOf st1 (path f) = Some DIRTY
        \<and> fst r = None
        \<and> debounced (snd r) = debounced st \<and> published (snd r) = published st
        \<and> statusOf (snd r) (path f) = Some CLEAN
        \<and> debounced (snd (handleCacheChanged testAndSetFileStatus H K L
              (Some \<lparr>view_path = path f, cursor_line = n\<rparr>) f live' (snd r))) =
            (if H (dropCursorLine (K (path f) n) live') \<noteq> H (existingFileInstanceIndex L st (path f))
             then debounced st @ [(path f, MODIFY_FILE_TASKS (dropCursorLine (K (path f) n) live'))]
             else debounced st)"
    unfolding Let_def 1 2 using 3 by (simp add: statusOf_def)
next
  assume "statusOf st (path doc) = Some DIRTY"
  then show "debounced (snd (handleCacheChanged testAndSetFileStatus H K L view doc live st)) = debounced st"
    unfolding handleCacheChanged_debounced
    by (auto simp: statusOf_def testAndSetFileStatus_fst split: option.splits)
next
  show "published (snd (handleCacheChanged testAndSetFileStatus H K L view doc live st)) = published st"
    by (simp add: handleCacheChanged_frame)
next
  assume b: "\<not> ignorePath st (path f) \<and> H index \<noteq> H (F (path f) (instanceIndex st))
      \<and> view_path v \<noteq> path f"
  then show "handleCacheChanged T H K L (Some v) f live (onFileOpen H F (Some f) index st) =
        (None, onFileOpen H F (Some f) index st)"
    by (simp add: handleCacheChanged_def)
  from b show "statusOf (onFileOpen H F (Some f) index st) (path f) = Some DIRTY"
    by (simp add: onFileOpen_differ statusOf_def)
qed

theorem self_write_swallowed_once_witness:
  "statusOf (onFileOpen sampleHash sampleFilter (Some (TFile 1 (js ''a.md''))) sampleLive sample)
     (js ''a.md'') = Some DIRTY
 \<and> length (written (onFileOpen sampleHash sampleFilter (Some (TFile 1 (js ''a.md''))) sampleLive sample)) = 1
 \<and> debounced (snd (handleCacheChanged testAndSetFileStatus sampleHash sampleKey sampleLoc
      (Some \<lparr>view_path = js ''a.md'', cursor_line = 0\<rparr>) (TFile 1 (js ''a.md'')) sampleLive
      (onFileOpen sampleHash sampleFilter (Some (TFile 1 (js ''a.md''))) sampleLive sample))) = []
 \<and> statusOf (snd (handleCacheChanged testAndSetFileStatus sampleHash sampleKey sampleLoc
      (Some \<lparr>view_path = js ''a.md'', cursor_line = 0\<rparr>) (TFile 1 (js ''a.md'')) sampleLive
      (onFileOpen sampleHash sampleFilter (Some (TFile 1 (js ''a.md''))) sampleLive sample)))
     (js ''a.md'') = Some CLEAN
 \<and> handleCacheChanged testAndSetFileStatus sampleHash sampleKey sampleLoc
      (Some \<lparr>view_path = js ''b.md'', cursor_line = 0\<rparr>) (TFile 1 (js ''a.md'')) sampleLive
      (onFileOpen sampleHash sampleFilter (Some (TFile 1 (js ''a.md''))) sampleLive sample) =
     (None, onFileOpen sampleHash sampleFilter (Some (TFile 1 (js ''a.md''))) sampleLive sample)"
proof -
  have h1: "\<not> ignorePath sample (path (TFile 1 (js ''a.md'')))
      \<and> sampleHash sampleLive \<noteq> sampleHash (sampleFilter (path (TFile 1 (js ''a.md''))) (instanceIndex sample))
      \<and> (case Some \<lparr>view_path = js ''a.md'', cursor_line = 0\<rparr> of None \<Rightarrow> True
          | Some v \<Rightarrow> view_path v = path (TFile 1 (js ''a.md'')))"
    by (simp add: sample_defs)
  have h2: "view_path \<lparr>view_path = js ''b.md'', cursor_line = 0\<rparr> \<noteq> path (TFile 1 (js ''a.md''))"
    by (simp add: js_def)
  have w: "written sample = []" "debounced sample = []" by (simp_all add: sample_def)
  from self_write_swallowed_once [where st = sample and f = "TFile 1 (js ''a.md'')" and H = sampleHash
      and index = sampleLive and F = sampleFilter
      and view = "Some \<lparr>view_path = js ''a.md'', cursor_line = 0\<rparr>" and K = sampleKey
      and L = sampleLoc and live = sampleLive
      and v = "\<lparr>view_path = js ''b.md'', cursor_line = 0\<rparr>" and T = testAndSetFileStatus] h1 h2 w
  show ?thesis by (simp add: Let_def)
qed

text \<open>
  C6. With equal fingerprints, the handler of \<^verbatim>\<open>file-open\<close> records CLEAN, writes
  nothing and publishes nothing, and running it again changes nothing. With equal
  fingerprints \<^verbatim>\<open>handleCacheChanged\<close> asks for no reconciliation and leaves the
  store as it is, whatever the test of the status does; and with the test as modelled, for
  the focused, active, recorded document it ends without error with the status CLEAN, and
  running it again on the same text returns the same state.
\<close>

theorem equal_fingerprints_no_mutation:
  "(\<not> ignorePath st (path f) \<and> H index = H (F (path f) (instanceIndex st)) \<longrightarrow>
      (let st' = onFileOpen H F (Some f) index st in
         statusOf st' (path f) = Some CLEAN
       \<and> written st' = written st \<and> published st' = published st \<and> debounced st' = debounced st
       \<and> instanceIndex st' = instanceIndex st
       \<and> onFileOpen H F (Some f) index st' = st'))
 \<and> (H (dropCursorLine (K (path doc) (cursor_line v)) live) =
        H (existingFileInstanceIndex L st (path doc)) \<longrightarrow>
      (let r = handleCacheChanged T H K L (Some v) doc live st in
         debounced (snd r) = debounced st \<and> published (snd r) = published st
       \<and> instanceIndex (snd r) = instanceIndex st)
    \<and> (let r = handleCacheChanged testAndSetFileStatus H K L (Some v) doc live st in
         view_path v = path doc \<and> map_option ident (activeFile st) = Some (ident doc)
            \<and> \<not> ignorePath st (path doc) \<and> fileStates st (path doc) \<noteq> None \<longrightarrow>
              fst r = None \<and> statusOf (snd r) (path doc) = Some CLEAN
            \<and> handleCacheChanged testAndSetFileStatus H K L (Some v) doc live (snd r) = (None, snd r)))"
proof (intro conjI impI)
  assume a: "\<not> ignorePath st (path f) \<and> H index = H (F (path f) (instanceIndex st))"
  let ?st' = "st\<lparr>activeFile := Some f,
              fileStates := (fileStates st)(path f \<mapsto> \<lparr>status = CLEAN, hash = H index\<rparr>)\<rparr>"
  have 1: "onFileOpen H F (Some f) index st = ?st'"
    using a by (simp add: onFileOpen_equal)
  have "\<not> ignorePath ?st' (path f)" using a by (simp add: ignorePath_def)
  moreover have "H index = H (F (path f) (instanceIndex ?st'))" using a by simp
  ultimately have 2: "onFileOpen H F (Some f) index ?st' = ?st'"
    by (simp add: onFileOpen_equal)
  show "let st' = onFileOpen H F (Some f) index st in
         statusOf st' (path f) = Some CLEAN
       \<and> written st' = written st \<and> published st' = published st \<and> debounced st' = debounced st
       \<and> instanceIndex st' = instanceIndex st
       \<and> onFileOpen H F (Some f) index st' = st'"
    unfolding Let_def 1 using 2 by (simp add: statusOf_def)
next
  assume h: "H (dropCursorLine (K (path doc) (cursor_line v)) live) =
        H (existingFileInstanceIndex L st (path doc))"
  have "debounced (snd (handleCacheChanged T H K L (Some v) doc live st)) = debounced st"
    unfolding handleCacheChanged_debounced using h by simp
  then show "let r = handleCacheChanged T H K L (Some v) doc live st in
         debounced (snd r) = debounced st \<and> published (snd r) = published st
       \<and> instanceIndex (snd r) = instanceIndex st"
    unfolding Let_def by (simp add: handleCacheChanged_frame)
next
  assume h: "H (dropCursorLine (K (path doc) (cursor_line v)) live) =
        H (existingFileInstanceIndex L st (path doc))"
  let ?r = "handleCacheChanged testAndSetFileStatus H K L (Some v) doc live st"
  have reach: "fst ?r = None \<and> statusOf (snd ?r) (path doc) = Some CLEAN
            \<and> handleCacheChanged testAndSetFileStatus H K L (Some v) doc live (snd ?r) = (None, snd ?r)"
    if g: "view_path v = path doc \<and> map_option ident (activeFile st) = Some (ident doc)
            \<and> \<not> ignorePath st (path doc) \<and> fileStates st (path doc) \<noteq> None"
  proof -
    from g obtain a fs where a: "activeFile st = Some a" "ident a = ident doc"
      and fs: "fileStates st (path doc) = Some fs" by auto
    let ?st1 = "st\<lparr>fileStates := (fileStates st)(path doc \<mapsto> fs\<lparr>status := CLEAN\<rparr>)\<rparr>"
    have 1: "?r = (None, ?st1)"
      using g a fs h by (intro handleCacheChanged_equal [where a = a and fs = fs]) auto
    have "handleCacheChanged testAndSetFileStatus H K L (Some v) doc live ?st1 =
        (None, ?st1\<lparr>fileStates := (fileStates ?st1)(path doc \<mapsto> fs\<lparr>status := CLEAN, status := CLEAN\<rparr>)\<rparr>)"
      using g a h
      by (intro handleCacheChanged_equal [where a = a])
         (auto simp: ignorePath_def existingFileInstanceIndex_def)
    then have 2: "handleCacheChanged testAndSetFileStatus H K L (Some v) doc live ?st1 = (None, ?st1)"
      by simp
    show ?thesis unfolding 1 using 2 by (simp add: statusOf_def)
  qed
  then show "let r = ?r in
         view_path v = path doc \<and> map_option ident (activeFile st) = Some (ident doc)
            \<and> \<not> ignorePath st (path doc) \<and> fileStates st (path doc) \<noteq> None \<longrightarrow>
              fst r = None \<and> statusOf (snd r) (path doc) = Some CLEAN
            \<and> handleCacheChanged testAndSetFileStatus H K L (Some v) doc live (snd r) = (None, snd r)"
    unfolding Let_def by blast
qed

theorem equal_fingerprints_no_mutation_witness:
  "statusOf (onFileOpen sampleHash sampleFilter (Some (TFile 1 (js ''a.md''))) [] sample) (js ''a.md'')
     = Some CLEAN
 \<and> written (onFileOpen sampleHash sampleFilter (Some (TFile 1 (js ''a.md''))) [] sample) = written sample
 \<and> debounced (snd (handleCacheChanged testAndSetFileStatus sampleHash sampleKey sampleLoc
      (Some \<lparr>view_path = js ''a.md'', cursor_line = 3\<rparr>) (TFile 1 (js ''a.md'')) sampleLive sample))
     = debounced sample
 \<and> statusOf (snd (handleCacheChanged testAndSetFileStatus sampleHash sampleKey sampleLoc
      (Some \<lparr>view_path = js ''a.md'', cursor_line = 3\<rparr>) (TFile 1 (js ''a.md'')) sampleLive sample))
     (js ''a.md'') = Some CLEAN"
proof -
  have h1: "\<not> ignorePath sample (path (TFile 1 (js ''a.md'')))
      \<and> sampleHash [] = sampleHash (sampleFilter (path (TFile 1 (js ''a.md''))) (instanceIndex sample))"
    by (simp add: sample_defs)
  have h2: "sampleHash (dropCursorLine (sampleKey (path (TFile 1 (js ''a.md'')))
          (cursor_line \<lparr>view_path = js ''a.md'', cursor_line = 3\<rparr>)) sampleLive) =
        sampleHash (existingFileInstanceIndex sampleLoc sample (path (TFile 1 (js ''a.md''))))"
    by (simp add: sample_defs)
  have h3: "view_path \<lparr>view_path = js ''a.md'', cursor_line = 3\<rparr> = path (TFile 1 (js ''a.md''))
      \<and> map_option ident (activeFile sample) = Some (ident (TFile 1 (js ''a.md'')))
      \<and> \<not> ignorePath sample (path (TFile 1 (js ''a.md'')))
      \<and> fileStates sample (path (TFile 1 (js ''a.md''))) \<noteq> None"
    by (simp add: sample_defs)
  from equal_fingerprints_no_mutation [of sample "TFile 1 (js ''a.md'')" sampleHash "[]" sampleFilter
      sampleKey "TFile 1 (js ''a.md'')" "\<lparr>view_path = js ''a.md'', cursor_line = 3\<rparr>" sampleLive
      sampleLoc testAndSetFileStatus] h1 h2 h3
  show ?thesis by (simp add: Let_def)
qed



text \<open>
  In the earlier variant of the handler the guard is the same when a Markdown view is active;
  with no active view it publishes for any file for which the test of the status answers
  true.
\<close>

lemma handleCacheChanged_v1_other_view:
  "view = Some v \<Longrightarrow> view_path v \<noteq> path f \<Longrightarrow> snd (handleCacheChanged_v1 T view f state fm) = None"
  by (simp add: handleCacheChanged_v1_def split: prod.splits)

lemma handleCacheChanged_v1_no_view:
  "fst (T fm p DIRTY) \<Longrightarrow>
     snd (handleCacheChanged_v1 T None (TFile i p) (Some d) fm) = Some (MODIFY_FILE_TASKS d)"
  by (cases "T fm p DIRTY") (simp add: handleCacheChanged_v1_def)

text \<open>
  C9. When the live index has an entry with \<^verbatim>\<open>uid\<close> 0 under the key of the
  cursor's line, the index that is compared and dispatched is the live index without that
  entry: with a fingerprint equal to the stored one, and so in particular when nothing but
  that entry sets the live index apart from the stored one, no reconciliation is asked for;
  and whatever is dispatched is the live index without the entry.
\<close>

theorem cursor_line_anonymous_removed:
  assumes "view = Some v" and "map_of live (K (path doc) (cursor_line v)) = Some i" and "uid i = 0"
  shows "(H (AList.delete (K (path doc) (cursor_line v)) live) = H (existingFileInstanceIndex L st (path doc))
          \<longrightarrow> debounced (snd (handleCacheChanged T H K L view doc live st)) = debounced st)
       \<and> (AList.delete (K (path doc) (cursor_line v)) live = existingFileInstanceIndex L st (path doc)
          \<longrightarrow> debounced (snd (handleCacheChanged T H K L view doc live st)) = debounced st)
       \<and> (\<forall>a \<in> set (debounced (snd (handleCacheChanged T H K L view doc live st))) - set (debounced st).
            a = (path doc, MODIFY_FILE_TASKS (AList.delete (K (path doc) (cursor_line v)) live)))
       \<and> map_of (AList.delete (K (path doc) (cursor_line v)) live) (K (path doc) (cursor_line v)) = None"
  using assms unfolding handleCacheChanged_debounced
  by (auto simp: dropCursorLine_def delete_conv')

theorem cursor_line_anonymous_removed_witness:
  "debounced (snd (handleCacheChanged testAndSetFileStatus sampleHash sampleKey sampleLoc
      (Some \<lparr>view_path = js ''a.md'', cursor_line = 3\<rparr>) (TFile 1 (js ''a.md'')) sampleLive sample)) =
     debounced sample
 \<and> map_of (AList.delete (sampleKey (js ''a.md'') 3) sampleLive) (sampleKey (js ''a.md'') 3) = None"
proof -
  have h1: "map_of sampleLive (sampleKey (path (TFile 1 (js ''a.md'')))
              (cursor_line \<lparr>view_path = js ''a.md'', cursor_line = 3\<rparr>)) =
            Some \<lparr>filePath = js ''a.md'', uid = 0\<rparr>"
    by (simp add: sampleLive_def)
  have h2: "uid \<lparr>filePath = js ''a.md'', uid = 0\<rparr> = 0" by simp
  have h3: "AList.delete (sampleKey (path (TFile 1 (js ''a.md'')))
              (cursor_line \<lparr>view_path = js ''a.md'', cursor_line = 3\<rparr>)) sampleLive =
            existingFileInstanceIndex sampleLoc sample (path (TFile 1 (js ''a.md'')))"
    by (simp add: sampleLive_def existingFileInstanceIndex_def sample_def)
  from cursor_line_anonymous_removed [where view = "Some \<lparr>view_path = js ''a.md'', cursor_line = 3\<rparr>"
      and v = "\<lparr>view_path = js ''a.md'', cursor_line = 3\<rparr>" and K = sampleKey
      and doc = "TFile 1 (js ''a.md'')" and live = sampleLive
      and i = "\<lparr>filePath = js ''a.md'', uid = 0\<rparr>" and H = sampleHash and L = sampleLoc
      and st = sample and T = testAndSetFileStatus, OF refl h1 h2] h3
  show ?thesis by simp
qed

text \<open>
  C10. \<^verbatim>\<open>handleFileDeleted\<close>, for a file, and \<^verbatim>\<open>handleFileRenamed\<close>
  publish their action exactly when \<^verbatim>\<open>getFileStateHash\<close> has a record for the path
  (the old path), and change nothing else; for a path without a record the state is as
  before. Neither changes the index of the store, and for a deleted folder nothing is
  published.
\<close>

theorem handleFileDeleted_Renamed_tracked:
  "handleFileDeleted (TFile i p) st =
     (if getFileStateHash (fileStates st) p = None then st
      else st\<lparr>published := published st @ [DELETE_FILE p]\<rparr>)
 \<and> handleFileDeleted (TFolder i p) st = st
 \<and> handleFileRenamed f q st =
     (if getFileStateHash (fileStates st) q = None then st
      else st\<lparr>published := published st @ [RENAME_FILE q (path f)]\<rparr>)
 \<and> instanceIndex (handleFileDeleted f st) = instanceIndex st
 \<and> taskIndex (handleFileDeleted f st) = taskIndex st
 \<and> instanceIndex (handleFileRenamed f q st) = instanceIndex st
 \<and> taskIndex (handleFileRenamed f q st) = taskIndex st"
  by (cases f) (simp_all add: handleFileDeleted_def handleFileRenamed_def)

end
